theory Spec2Isabelle
  imports Main "HOL-Library.Word" "HOL-Library.AList_Mapping"
begin

section \<open>Time\<close>

text \<open>
  A \<^verbatim>\<open>time.Time\<close> is modelled by the instant it denotes, counted in nanoseconds from
  Go's zero instant (January 1, year 1, 00:00:00 UTC), so \<^verbatim>\<open>time.Time{}\<close> is \<open>0\<close> and
  \<^verbatim>\<open>t.IsZero()\<close> is \<open>t = 0\<close>. A \<^verbatim>\<open>time.Duration\<close> is a signed 64-bit count of
  nanoseconds. Every call of \<^verbatim>\<open>time.Now()\<close> in the source becomes an explicit argument
  holding the value the clock returned at that program point.
\<close>

type_synonym Time = int
type_synonym Duration = "64 word"

definition time_zero :: Time where
  "time_zero = 0"

definition IsZero :: "Time \<Rightarrow> bool" where
  "IsZero t = (t = time_zero)"

definition After :: "Time \<Rightarrow> Time \<Rightarrow> bool" where
  "After t u = (u < t)"

definition Before :: "Time \<Rightarrow> Time \<Rightarrow> bool" where
  "Before t u = (t < u)"

definition Add :: "Time \<Rightarrow> Duration \<Rightarrow> Time" where
  "Add t d = t + sint d"

text \<open>
  \<^verbatim>\<open>t.Sub(u)\<close> saturates: a difference outside the range of a Duration is replaced by
  the largest or the smallest Duration. \<^verbatim>\<open>time.Until(t)\<close> is \<^verbatim>\<open>t.Sub(time.Now())\<close>.
\<close>

definition maxDuration :: int where
  "maxDuration = 2 ^ 63 - 1"

definition minDuration :: int where
  "minDuration = - (2 ^ 63)"

definition Sub :: "Time \<Rightarrow> Time \<Rightarrow> Duration" where
  "Sub t u =
     (if t - u > maxDuration then word_of_int maxDuration
      else if t - u < minDuration then word_of_int minDuration
      else word_of_int (t - u))"

definition Until :: "Time \<Rightarrow> Time \<Rightarrow> Duration" where
  "Until t now = Sub t now"

text \<open>\<^verbatim>\<open>utils.ZeroOrExpiry\<close>; \<open>now\<close> is the reading of \<^verbatim>\<open>time.Now()\<close> on the second branch.\<close>

definition ZeroOrExpiry :: "Time \<Rightarrow> Duration \<Rightarrow> Time" where
  "ZeroOrExpiry now ttl = (if sint ttl \<le> 0 then time_zero else Add now ttl)"

section \<open>Contexts and deadlines\<close>

text \<open>
  Of a \<^verbatim>\<open>context.Context\<close> the model keeps what \<^verbatim>\<open>Deadline()\<close> returns: the
  deadline, when there is one.
\<close>

record Context =
  Deadline :: "Time option"

text \<open>\<^verbatim>\<open>context.Background()\<close> has no deadline.\<close>

definition Background :: Context where
  "Background = \<lparr>Deadline = None\<rparr>"

text \<open>
  \<^verbatim>\<open>context.WithDeadline\<close> keeps the parent's deadline when it is earlier than the new
  one, and \<^verbatim>\<open>context.WithTimeout(parent, timeout)\<close> is
  \<^verbatim>\<open>WithDeadline(parent, time.Now().Add(timeout))\<close>.
\<close>

definition WithDeadline :: "Context \<Rightarrow> Time \<Rightarrow> Context" where
  "WithDeadline parent d =
     (case Deadline parent of
        Some cur \<Rightarrow> if Before cur d then parent else parent\<lparr>Deadline := Some d\<rparr>
      | None \<Rightarrow> parent\<lparr>Deadline := Some d\<rparr>)"

definition WithTimeout :: "Context \<Rightarrow> Duration \<Rightarrow> Time \<Rightarrow> Context" where
  "WithTimeout parent timeout now = WithDeadline parent (Add now timeout)"

text \<open>
  \<^verbatim>\<open>utils.RequestContextWithTimeout\<close>. \<open>now1\<close> is the clock reading inside
  \<^verbatim>\<open>time.Until\<close>, \<open>now2\<close> the one inside \<^verbatim>\<open>context.WithTimeout\<close>.
\<close>

definition RequestContextWithTimeout :: "Context \<Rightarrow> Duration \<Rightarrow> Time \<Rightarrow> Time \<Rightarrow> Context" where
  "RequestContextWithTimeout parent d now1 now2 =
     (case Deadline parent of
        Some deadline \<Rightarrow>
          if sint (Until deadline now1) < sint d then parent
          else WithTimeout parent d now2
      | None \<Rightarrow> WithTimeout parent d now2)"

section \<open>Headers\<close>

text \<open>
  \<^verbatim>\<open>http.Header\<close> is \<^verbatim>\<open>map[string][]string\<close>. It is an association list here: the
  order of the list is the order in which a \<^verbatim>\<open>range\<close> loop visits the map, which Go
  leaves unspecified, so a statement about all lists covers every iteration order.
\<close>

type_synonym Header = "(string \<times> string list) list"

text \<open>
  \<^verbatim>\<open>http.CanonicalHeaderKey\<close> is \<^verbatim>\<open>textproto.CanonicalMIMEHeaderKey\<close> of the Go
  standard library: a key in which every byte is a token byte gets its first letter and
  every letter after a hyphen in upper case and every other letter in lower case; a key
  with any other byte (a space included) is returned as it is.
\<close>

definition isLower :: "char \<Rightarrow> bool" where
  "isLower c = (97 \<le> (of_char c :: nat) \<and> (of_char c :: nat) \<le> 122)"

definition isUpper :: "char \<Rightarrow> bool" where
  "isUpper c = (65 \<le> (of_char c :: nat) \<and> (of_char c :: nat) \<le> 90)"

definition isDigit :: "char \<Rightarrow> bool" where
  "isDigit c = (48 \<le> (of_char c :: nat) \<and> (of_char c :: nat) \<le> 57)"

definition validHeaderFieldByte :: "char \<Rightarrow> bool" where
  "validHeaderFieldByte c =
     (isLower c \<or> isUpper c \<or> isDigit c \<or>
      c \<in> set [CHR ''!'', CHR ''#'', CHR ''$'', CHR ''%'', CHR ''&'', CHR 0x27, CHR ''*'', CHR ''+'',
                 CHR ''-'', CHR ''.'', CHR ''^'', CHR ''_'', CHR 0x60, CHR ''|'', CHR ''~''])"

definition toLower :: nat where
  "toLower = 32"

definition canonByte :: "bool \<Rightarrow> char \<Rightarrow> char" where
  "canonByte upper c =
     (if upper \<and> isLower c then char_of ((of_char c :: nat) - toLower)
      else if \<not> upper \<and> isUpper c then char_of ((of_char c :: nat) + toLower)
      else c)"

fun canonicalMIMEHeaderKey :: "bool \<Rightarrow> string \<Rightarrow> string" where
  "canonicalMIMEHeaderKey upper [] = []"
| "canonicalMIMEHeaderKey upper (c # cs) =
     canonByte upper c # canonicalMIMEHeaderKey (canonByte upper c = CHR ''-'') cs"

definition CanonicalMIMEHeaderKey :: "string \<Rightarrow> string" where
  "CanonicalMIMEHeaderKey s =
     (if list_all validHeaderFieldByte s then canonicalMIMEHeaderKey True s else s)"

definition CanonicalHeaderKey :: "string \<Rightarrow> string" where
  "CanonicalHeaderKey s = CanonicalMIMEHeaderKey s"

text \<open>\<^verbatim>\<open>utils.IsHopByHopHeader\<close>.\<close>

definition IsHopByHopHeader :: "string \<Rightarrow> bool" where
  "IsHopByHopHeader key =
     (CanonicalHeaderKey key \<in> set [''Connection'', ''Proxy-Connection'', ''Keep-Alive'',
        ''Proxy-Authenticate'', ''Proxy-Authorization'', ''Te'', ''Trailer'',
        ''Transfer-Encoding'', ''Upgrade''])"

text \<open>
  The map operations of \<^verbatim>\<open>http.Header\<close>: \<open>index h k\<close> is the Go expression
  \<^verbatim>\<open>h[k]\<close> (\<^verbatim>\<open>nil\<close> for a missing key), \<^verbatim>\<open>Add\<close> is
  \<^verbatim>\<open>h[k] = append(h[k], v)\<close> and \<^verbatim>\<open>Set\<close> is \<^verbatim>\<open>h[k] = []string{v}\<close>, both
  at the canonical key; \<^verbatim>\<open>Values\<close> and \<^verbatim>\<open>Get\<close> read at the canonical key.
\<close>

definition index :: "Header \<Rightarrow> string \<Rightarrow> string list" where
  "index h k = (case map_of h k of None \<Rightarrow> [] | Some vs \<Rightarrow> vs)"

definition Header_Add :: "Header \<Rightarrow> string \<Rightarrow> string \<Rightarrow> Header" where
  "Header_Add h key v =
     (let k = CanonicalHeaderKey key in AList.update k (index h k @ [v]) h)"

definition Header_Set :: "Header \<Rightarrow> string \<Rightarrow> string \<Rightarrow> Header" where
  "Header_Set h key v = AList.update (CanonicalHeaderKey key) [v] h"

definition Header_Values :: "Header \<Rightarrow> string \<Rightarrow> string list" where
  "Header_Values h key = index h (CanonicalHeaderKey key)"

definition Header_Get :: "Header \<Rightarrow> string \<Rightarrow> string" where
  "Header_Get h key = (case index h (CanonicalHeaderKey key) of [] \<Rightarrow> [] | v # _ \<Rightarrow> v)"

text \<open>
  \<^verbatim>\<open>utils.CopyHeadersForUpstream\<close>, \<^verbatim>\<open>utils.CopyHeadersForClient\<close> and
  \<^verbatim>\<open>utils.CloneHeaderSanitized\<close>: the outer \<^verbatim>\<open>range\<close> over the source map, the
  \<^verbatim>\<open>continue\<close> on a hop-by-hop key, the inner \<^verbatim>\<open>range\<close> over the values.
\<close>

definition CopyHeadersForUpstream :: "Header \<Rightarrow> Header \<Rightarrow> Header" where
  "CopyHeadersForUpstream dst src =
     fold (\<lambda>(k, vv) dst. if IsHopByHopHeader k then dst
                          else fold (\<lambda>v dst. Header_Add dst k v) vv dst) src dst"

definition CopyHeadersForClient :: "Header \<Rightarrow> Header \<Rightarrow> Header" where
  "CopyHeadersForClient dst src =
     fold (\<lambda>(k, vv) dst. if IsHopByHopHeader k then dst
                          else fold (\<lambda>v dst. Header_Add dst k v) vv dst) src dst"

definition CloneHeaderSanitized :: "Header \<Rightarrow> Header" where
  "CloneHeaderSanitized h = CopyHeadersForClient [] h"


text \<open>
  For stating case-insensitivity: ASCII lower-casing of a name, and the nine hop-by-hop
  names in lower case.
\<close>

definition lowerByte :: "char \<Rightarrow> char" where
  "lowerByte c = (if isUpper c then char_of ((of_char c :: nat) + toLower) else c)"

definition ToLower :: "string \<Rightarrow> string" where
  "ToLower s = map lowerByte s"

definition hopByHopLower :: "string list" where
  "hopByHopLower = [''connection'', ''proxy-connection'', ''keep-alive'',
        ''proxy-authenticate'', ''proxy-authorization'', ''te'', ''trailer'',
        ''transfer-encoding'', ''upgrade'']"

text \<open>
  A header map as \<^verbatim>\<open>CloneHeaderSanitized\<close> produces it: no key twice, every key in
  canonical form, no hop-by-hop key.
\<close>

definition sanitized :: "Header \<Rightarrow> bool" where
  "sanitized h =
     (distinct (map fst h) \<and>
      list_all (\<lambda>(k, vv). CanonicalHeaderKey k = k \<and> \<not> IsHopByHopHeader k) h)"

definition clean_keys :: "Header \<Rightarrow> bool" where
  "clean_keys h = (\<forall>k \<in> fst ` set h. CanonicalHeaderKey k = k \<and> \<not> IsHopByHopHeader k)"

section \<open>The response cache (internal/cache)\<close>

record Response =
  Status :: int
  Header :: Header
  Body :: string
  SavedAt :: Time
  ExpireAt :: Time

text \<open>The zero value \<^verbatim>\<open>Response{}\<close>.\<close>

definition Response_zero :: Response where
  "Response_zero = \<lparr>Status = 0, Header = [], Body = [], SavedAt = time_zero, ExpireAt = time_zero\<rparr>"

record Cache =
  data :: "(string, Response) mapping"

definition New_Cache :: Cache where
  "New_Cache = \<lparr>data = Mapping.empty\<rparr>"

text \<open>
  \<^verbatim>\<open>(*Cache).Get\<close>. The method has a pointer receiver, so the model returns the cache
  along with the two results; \<open>now\<close> is the reading of \<^verbatim>\<open>time.Now()\<close> in the TTL check.
\<close>

definition Get :: "Cache \<Rightarrow> string \<Rightarrow> Time \<Rightarrow> (Response \<times> bool) \<times> Cache" where
  "Get c key now =
     (case Mapping.lookup (data c) key of
        None \<Rightarrow> ((Response_zero, False), c)
      | Some v \<Rightarrow>
          if \<not> IsZero (ExpireAt v) \<and> After now (ExpireAt v) then ((Response_zero, False), c)
          else ((v, True), c))"

definition Set :: "Cache \<Rightarrow> string \<Rightarrow> Response \<Rightarrow> Cache" where
  "Set c key v = c\<lparr>data := Mapping.update key v (data c)\<rparr>"

definition Size :: "Cache \<Rightarrow> nat" where
  "Size c = Mapping.size (data c)"

section \<open>Requests, the proxy and the cache key (internal/proxy)\<close>

text \<open>
  Of an inbound \<^verbatim>\<open>*http.Request\<close> the handler reads the method, \<^verbatim>\<open>URL.Path\<close>,
  \<^verbatim>\<open>URL.RawQuery\<close>, the header map and the context. Of the \<^verbatim>\<open>Proxy\<close> it reads
  \<^verbatim>\<open>client.Timeout\<close>, \<^verbatim>\<open>ttl\<close> and \<^verbatim>\<open>keyHeaders\<close>; the cache it points to
  is passed along separately.
\<close>

record Request =
  Method :: string
  URL_Path :: string
  URL_RawQuery :: string
  ReqHeader :: Header
  Ctx :: Context

record Proxy =
  client_Timeout :: Duration
  ttl :: Duration
  keyHeaders :: "string list"

text \<open>
  \<^verbatim>\<open>(*Proxy).cacheKey\<close>: the loop over \<^verbatim>\<open>p.keyHeaders\<close> appends to \<^verbatim>\<open>key\<close>.
  (The guard \<^verbatim>\<open>len(p.keyHeaders) > 0\<close> changes nothing: the loop over an empty slice
  does not run.)
\<close>

definition cacheKey :: "Proxy \<Rightarrow> Request \<Rightarrow> string" where
  "cacheKey p r =
     fold (\<lambda>headerName key.
             let headerValue = Header_Get (ReqHeader r) headerName
             in if headerValue \<noteq> [] then key @ ''|'' @ headerName @ '':'' @ headerValue else key)
          (keyHeaders p)
          (Method r @ '' '' @ URL_Path r @ ''?'' @ URL_RawQuery r)"

text \<open>
  The key format in the specification's words: one segment per configured header name,
  \<^verbatim>\<open>|<HeaderName>:<value>\<close> when the request has a non-empty value for it, nothing
  otherwise.
\<close>

definition segment :: "Header \<Rightarrow> string \<Rightarrow> string" where
  "segment h name =
     (if Header_Get h name = [] then [] else ''|'' @ name @ '':'' @ Header_Get h name)"

text \<open>
  The outbound request that \<^verbatim>\<open>ServeHTTP\<close> builds: the context from
  \<^verbatim>\<open>RequestContextWithTimeout(r.Context(), p.client.Timeout)\<close>, the inbound method,
  and the inbound headers copied into the empty header map of the new request. (Its URL
  is left out.)
\<close>

record UpstreamRequest =
  req_Ctx :: Context
  req_Method :: string
  req_Header :: Header

definition upstreamRequest :: "Proxy \<Rightarrow> Request \<Rightarrow> Time \<Rightarrow> Time \<Rightarrow> UpstreamRequest" where
  "upstreamRequest p r now1 now2 =
     \<lparr>req_Ctx = RequestContextWithTimeout (Ctx r) (client_Timeout p) now1 now2,
      req_Method = Method r,
      req_Header = CopyHeadersForUpstream [] (ReqHeader r)\<rparr>"

section \<open>The handler (internal/proxy)\<close>

text \<open>
  \<^verbatim>\<open>%d\<close> of \<^verbatim>\<open>fmt\<close>: the decimal digits of an integer, with a minus sign when it
  is negative.
\<close>

function natToString :: "nat \<Rightarrow> string" where
  "natToString n =
     (if n < 10 then [char_of (48 + n)]
      else natToString (n div 10) @ [char_of (48 + n mod 10)])"
  by pat_completeness auto
termination
  by (relation "measure id") auto

declare natToString.simps [simp del]

definition Itoa :: "int \<Rightarrow> string" where
  "Itoa i = (if i < 0 then CHR ''-'' # natToString (nat (- i)) else natToString (nat i))"

text \<open>
  What the handler leaves in its \<^verbatim>\<open>http.ResponseWriter\<close>: the header map, the status
  code given to \<^verbatim>\<open>WriteHeader\<close> and the bytes given to \<^verbatim>\<open>Write\<close>. The server
  hands the handler a writer with an empty header map, \<open>NewWriter\<close>.
  \<^verbatim>\<open>WriteHeader\<close> panics on a status code outside 100..999, and the panic ends the
  handler without a response. (The upstream client never returns one of the
  informational codes 100 and 102..199, so their special treatment by
  \<^verbatim>\<open>WriteHeader\<close> is left out.)
\<close>

record ResponseWriter =
  w_Header :: Header
  w_Code :: int
  w_Body :: string

definition NewWriter :: ResponseWriter where
  "NewWriter = \<lparr>w_Header = [], w_Code = 0, w_Body = []\<rparr>"

datatype panic = InvalidWriteHeaderCode int

definition WriteHeader :: "ResponseWriter \<Rightarrow> int \<Rightarrow> panic + ResponseWriter" where
  "WriteHeader w code =
     (if code < 100 \<or> code > 999 then Inl (InvalidWriteHeaderCode code)
      else Inr (w\<lparr>w_Code := code\<rparr>))"

definition Write :: "ResponseWriter \<Rightarrow> string \<Rightarrow> ResponseWriter" where
  "Write w b = w\<lparr>w_Body := w_Body w @ b\<rparr>"

definition Header_Del :: "Header \<Rightarrow> string \<Rightarrow> Header" where
  "Header_Del h key = AList.delete (CanonicalHeaderKey key) h"

text \<open>
  \<^verbatim>\<open>http.Error\<close> of the Go standard library: it drops \<^verbatim>\<open>Content-Length\<close>, sets the
  two headers, writes the status code and prints the message followed by a newline.
\<close>

definition http_Error :: "ResponseWriter \<Rightarrow> string \<Rightarrow> int \<Rightarrow> panic + ResponseWriter" where
  "http_Error w error code =
     (let h = Header_Del (w_Header w) ''Content-Length'';
          h = Header_Set h ''Content-Type'' ''text/plain; charset=utf-8'';
          h = Header_Set h ''X-Content-Type-Options'' ''nosniff''
      in case WriteHeader (w\<lparr>w_Header := h\<rparr>) code of
           Inl e \<Rightarrow> Inl e
         | Inr w' \<Rightarrow> Inr (Write w' (error @ [CHR 0x0A])))"

text \<open>
  \<^verbatim>\<open>(*Proxy).tryServeFromCache\<close>. \<open>RFC3339\<close> stands for
  \<^verbatim>\<open>t.Format(time.RFC3339)\<close>, \<open>cause\<close> for \<^verbatim>\<open>cause.Error()\<close> and \<open>now\<close> for the
  clock reading inside \<^verbatim>\<open>Get\<close>.
\<close>

definition tryServeFromCache ::
  "(Time \<Rightarrow> string) \<Rightarrow> Cache \<Rightarrow> ResponseWriter \<Rightarrow> string \<Rightarrow> string \<Rightarrow> Time
     \<Rightarrow> (panic + ResponseWriter) \<times> Cache" where
  "tryServeFromCache RFC3339 c w key cause now =
     (case Get c key now of
        ((cached, ok), c') \<Rightarrow>
          if ok then
            let h = CopyHeadersForClient (w_Header w) (Header cached);
                h = Header_Set h ''X-Served-By'' ''Aegis'';
                h = Header_Set h ''X-Cache'' ''HIT-BACKUP'';
                h = Header_Set h ''X-Backup-Saved-At'' (RFC3339 (SavedAt cached))
            in (case WriteHeader (w\<lparr>w_Header := h\<rparr>) (Status cached) of
                  Inl e \<Rightarrow> Inl e
                | Inr w' \<Rightarrow> Inr (Write w' (Body cached)), c')
          else (http_Error w (''Bad Gateway (no cached backup): '' @ cause) 502, c'))"

text \<open>
  The one upstream attempt of a request, as the handler sees it end: the outbound request
  could not be built, \<^verbatim>\<open>client.Do\<close> failed, reading the body failed (each with the
  error's message), or a response arrived with its status code, headers and body. The
  clock readings of one handler run: \<^verbatim>\<open>SavedAt: time.Now()\<close>, the reading inside
  \<^verbatim>\<open>ZeroOrExpiry\<close> and the reading inside \<^verbatim>\<open>Get\<close>.
\<close>

datatype attempt =
    BuildError string
  | TransportError string
  | ReadError string
  | Replied int Header string

record Clock =
  now_Saved :: Time
  now_Expiry :: Time
  now_Get :: Time

text \<open>
  \<^verbatim>\<open>(*Proxy).ServeHTTP\<close>, from the cacheability test to the last \<^verbatim>\<open>Write\<close>. The
  result is the response (or the panic) and the cache the handler leaves behind.
\<close>

definition cacheable :: "Request \<Rightarrow> bool" where
  "cacheable r = (Method r = ''GET'' \<or> Method r = ''HEAD'')"

definition ServeHTTP ::
  "(Time \<Rightarrow> string) \<Rightarrow> Proxy \<Rightarrow> Cache \<Rightarrow> ResponseWriter \<Rightarrow> Request \<Rightarrow> Clock \<Rightarrow> attempt
     \<Rightarrow> (panic + ResponseWriter) \<times> Cache" where
  "ServeHTTP RFC3339 p c w r clk att =
     (let key = (if cacheable r then cacheKey p r else [])
      in case att of
           BuildError err \<Rightarrow>
             if cacheable r
             then tryServeFromCache RFC3339 c w key (''build request: '' @ err) (now_Get clk)
             else (http_Error w (''Bad Gateway: '' @ err) 502, c)
         | TransportError err \<Rightarrow>
             if cacheable r
             then tryServeFromCache RFC3339 c w key err (now_Get clk)
             else (http_Error w (''Bad Gateway: '' @ err) 502, c)
         | ReadError err \<Rightarrow>
             if cacheable r
             then tryServeFromCache RFC3339 c w key (''read upstream body: '' @ err) (now_Get clk)
             else (http_Error w (''Bad Gateway: '' @ err) 502, c)
         | Replied status header body \<Rightarrow>
             if status \<ge> 500 \<and> cacheable r
             then tryServeFromCache RFC3339 c w key (''upstream status '' @ Itoa status) (now_Get clk)
             else
               let h = CopyHeadersForClient (w_Header w) header;
                   h = Header_Set h ''X-Served-By'' ''Aegis'';
                   saved = (cacheable r \<and> status \<ge> 200 \<and> status \<le> 299);
                   c' = (if saved
                         then Set c key
                                \<lparr>Status = status, Header = CloneHeaderSanitized header, Body = body,
                                 SavedAt = now_Saved clk,
                                 ExpireAt = ZeroOrExpiry (now_Expiry clk) (ttl p)\<rparr>
                         else c);
                   h = Header_Set h ''X-Cache''
                         (if saved then ''MISS'' else if cacheable r then ''PASS'' else ''BYPASS'')
               in (case WriteHeader (w\<lparr>w_Header := h\<rparr>) status of
                     Inl e \<Rightarrow> Inl e
                   | Inr w' \<Rightarrow> Inr (Write w' body), c'))"

text \<open>
  For stating the properties: the attempts that send a cacheable request to the cache,
  the cause the handler names for each, and the entry the handler stores.
\<close>

definition failed :: "attempt \<Rightarrow> bool" where
  "failed att = (case att of Replied status header body \<Rightarrow> status \<ge> 500 | _ \<Rightarrow> True)"

definition cause :: "attempt \<Rightarrow> string" where
  "cause att =
     (case att of
        BuildError err \<Rightarrow> ''build request: '' @ err
      | TransportError err \<Rightarrow> err
      | ReadError err \<Rightarrow> ''read upstream body: '' @ err
      | Replied status header body \<Rightarrow> ''upstream status '' @ Itoa status)"

definition stored :: "Proxy \<Rightarrow> Clock \<Rightarrow> int \<Rightarrow> Header \<Rightarrow> string \<Rightarrow> Response" where
  "stored p clk status header body =
     \<lparr>Status = status, Header = CloneHeaderSanitized header, Body = body,
      SavedAt = now_Saved clk, ExpireAt = ZeroOrExpiry (now_Expiry clk) (ttl p)\<rparr>"



definition served :: "panic + ResponseWriter \<Rightarrow> ResponseWriter" where
  "served x = (case x of Inr w \<Rightarrow> w | Inl e \<Rightarrow> NewWriter)"

section \<open>Sample values\<close>

text \<open>A stored 200 response, saved at instant 1000 with a TTL of 100 nanoseconds.\<close>

definition entry0 :: Response where
  "entry0 = \<lparr>Status = 200, Header = [], Body = ''ok'', SavedAt = 1000, ExpireAt = 1100\<rparr>"

text \<open>Request headers as a client may send them, two of them hop-by-hop.\<close>

definition headers0 :: Header where
  "headers0 = [(''Content-Type'', [''application/json'']), (''Connection'', [''keep-alive'']),
     (''X-Custom'', [''a'', ''b'']), (''transfer-encoding'', [''chunked''])]"

text \<open>
  A proxy keyed on two headers, and four requests for the same method, path and query.
  \<open>request1\<close> and \<open>request2\<close> carry a \<^verbatim>\<open>|\<close> inside a header value.
\<close>

definition proxy0 :: Proxy where
  "proxy0 = \<lparr>client_Timeout = 1000, ttl = 100, keyHeaders = [''X-Tenant-ID'', ''authorization'']\<rparr>"

definition request1 :: Request where
  "request1 = \<lparr>Method = ''GET'', URL_Path = ''/api/data'', URL_RawQuery = ''page=1'',
      ReqHeader = [(''X-Tenant-Id'', [''a'']), (''Authorization'', [''b|authorization:c''])],
      Ctx = Background\<rparr>"

definition request2 :: Request where
  "request2 = \<lparr>Method = ''GET'', URL_Path = ''/api/data'', URL_RawQuery = ''page=1'',
      ReqHeader = [(''X-Tenant-Id'', [''a|authorization:b'']), (''Authorization'', [''c''])],
      Ctx = Background\<rparr>"

definition request3 :: Request where
  "request3 = \<lparr>Method = ''GET'', URL_Path = ''/api/data'', URL_RawQuery = ''page=1'',
      ReqHeader = [(''X-Tenant-Id'', [''acme'']), (''Authorization'', [''Bearer token1''])],
      Ctx = Background\<rparr>"

definition request4 :: Request where
  "request4 = \<lparr>Method = ''GET'', URL_Path = ''/api/data'', URL_RawQuery = ''page=1'',
      ReqHeader = [(''X-Tenant-Id'', [''acme'']), (''Authorization'', [''Bearer token2''])],
      Ctx = Background\<rparr>"

text \<open>
  A stand-in for the RFC 3339 format, two clocks, and a request that is not cacheable.
\<close>

definition stamp :: "Time \<Rightarrow> string" where
  "stamp t = ''t='' @ Itoa t"

definition clock1 :: Clock where
  "clock1 = \<lparr>now_Saved = 1000, now_Expiry = 1001, now_Get = 1002\<rparr>"

definition clock2 :: Clock where
  "clock2 = \<lparr>now_Saved = 1050, now_Expiry = 1051, now_Get = 1052\<rparr>"

definition post0 :: Request where
  "post0 = \<lparr>Method = ''POST'', URL_Path = ''/api/data'', URL_RawQuery = '''',
      ReqHeader = [(''Content-Type'', [''application/json''])], Ctx = Background\<rparr>"

text \<open>
  An upstream success, the cache after a first GET that received it, and the entry that
  GET stored.
\<close>

definition upstream_ok :: attempt where
  "upstream_ok = Replied 200 [(''Content-Type'', [''text/plain'']), (''Connection'', [''close''])] ''success''"

definition cache1 :: Cache where
  "cache1 = snd (ServeHTTP stamp proxy0 New_Cache NewWriter request3 clock1 upstream_ok)"

definition entry1 :: Response where
  "entry1 = \<lparr>Status = 200, Header = [(''Content-Type'', [''text/plain''])], Body = ''success'',
      SavedAt = 1000, ExpireAt = 1101\<rparr>"

section \<open>Properties of the cache\<close>

lemma Get_Set_same:
  "fst (Get (Set c key v) key now) =
     (if \<not> IsZero (ExpireAt v) \<and> After now (ExpireAt v) then (Response_zero, False) else (v, True))"
  by (simp add: Get_def Set_def)

text \<open>
  C9. \<^verbatim>\<open>Get\<close> leaves the cache as it found it, for every key and every instant, so
  \<^verbatim>\<open>Size\<close> is unchanged. On the expired branch it returns the zero \<^verbatim>\<open>Response\<close> and
  \<open>false\<close>, while the stale entry stays in the table and among the keys that
  \<^verbatim>\<open>Size\<close> counts.
\<close>

theorem Get_frame:
  "snd (Get c key now) = c
   \<and> Size (snd (Get c key now)) = Size c
   \<and> (Mapping.lookup (data c) key = Some v \<and> \<not> IsZero (ExpireAt v) \<and> ExpireAt v < now \<longrightarrow>
        fst (Get c key now) = (Response_zero, False)
        \<and> Mapping.lookup (data (snd (Get c key now))) key = Some v
        \<and> key \<in> Mapping.keys (data (snd (Get c key now))))"
  by (auto simp: Get_def After_def keys_is_none_rep split: option.splits)

theorem Get_frame_witness:
  "Mapping.lookup (data (Set New_Cache ''GET /test?'' entry0)) ''GET /test?'' = Some entry0
   \<and> \<not> IsZero (ExpireAt entry0) \<and> ExpireAt entry0 < 1150
   \<and> fst (Get (Set New_Cache ''GET /test?'' entry0) ''GET /test?'' 1150) = (Response_zero, False)
   \<and> snd (Get (Set New_Cache ''GET /test?'' entry0) ''GET /test?'' 1150)
       = Set New_Cache ''GET /test?'' entry0
   \<and> Size (snd (Get (Set New_Cache ''GET /test?'' entry0) ''GET /test?'' 1150)) = 1"
proof -
  have h: "Mapping.lookup (data (Set New_Cache ''GET /test?'' entry0)) ''GET /test?'' = Some entry0
      \<and> \<not> IsZero (ExpireAt entry0) \<and> ExpireAt entry0 < 1150"
    by (simp add: Set_def entry0_def IsZero_def time_zero_def)
  have s: "Size (Set New_Cache ''GET /test?'' entry0) = 1"
    by (simp add: Size_def Set_def New_Cache_def Mapping.size_def)
  from h s Get_frame [of "Set New_Cache ''GET /test?'' entry0" "''GET /test?''" 1150 entry0]
  show ?thesis by metis
qed

lemma cacheKey_ttl: "cacheKey (p\<lparr>ttl := d\<rparr>) r = cacheKey p r"
  by (simp add: cacheKey_def)

lemma ServeHTTP_nonpositive_ttl:
  "sint (ttl p) \<le> 0 \<Longrightarrow>
     ServeHTTP F p c w r clk att = ServeHTTP F (p\<lparr>ttl := 0\<rparr>) c w r clk att"
  unfolding ServeHTTP_def cacheKey_ttl
  by (cases att) (simp_all add: ZeroOrExpiry_def Let_def)

text \<open>
  C10. For every TTL \<open>\<le> 0\<close> the expiry computation gives what it gives for TTL \<open>0\<close>,
  the zero time; an entry stored with that expiry is found at every later instant; and a
  handler configured with that TTL does what a handler configured with TTL \<open>0\<close> does.
\<close>

theorem ZeroOrExpiry_nonpositive:
  "sint dur \<le> 0 \<Longrightarrow>
     ZeroOrExpiry now dur = ZeroOrExpiry now 0
     \<and> IsZero (ZeroOrExpiry now dur)
     \<and> (ExpireAt v = ZeroOrExpiry now dur \<longrightarrow> fst (Get (Set c key v) key later) = (v, True))
     \<and> ServeHTTP F (p\<lparr>ttl := dur\<rparr>) c w r clk att = ServeHTTP F (p\<lparr>ttl := 0\<rparr>) c w r clk att"
proof -
  assume le: "sint dur \<le> 0"
  then have "sint (ttl (p\<lparr>ttl := dur\<rparr>)) \<le> 0" by simp
  from ServeHTTP_nonpositive_ttl [OF this, of F c w r clk att]
  have "ServeHTTP F (p\<lparr>ttl := dur\<rparr>) c w r clk att = ServeHTTP F (p\<lparr>ttl := 0\<rparr>) c w r clk att"
    by simp
  with le show ?thesis
    by (simp add: ZeroOrExpiry_def IsZero_def Get_Set_same)
qed

theorem ZeroOrExpiry_nonpositive_witness:
  "sint (- 5 :: Duration) \<le> 0
   \<and> ZeroOrExpiry 1000 (- 5) = time_zero
   \<and> fst (Get (Set New_Cache ''GET /test?'' (entry0\<lparr>ExpireAt := ZeroOrExpiry 1000 (- 5)\<rparr>))
        ''GET /test?'' 99999999) = (entry0\<lparr>ExpireAt := ZeroOrExpiry 1000 (- 5)\<rparr>, True)
   \<and> ServeHTTP stamp (proxy0\<lparr>ttl := - 5\<rparr>) New_Cache NewWriter request3 clock1 upstream_ok
       = ServeHTTP stamp (proxy0\<lparr>ttl := 0\<rparr>) New_Cache NewWriter request3 clock1 upstream_ok"
proof -
  have h: "sint (- 5 :: Duration) \<le> 0" by simp
  have e: "ExpireAt (entry0\<lparr>ExpireAt := ZeroOrExpiry 1000 (- 5)\<rparr>) = ZeroOrExpiry 1000 (- 5)"
    by simp
  from ZeroOrExpiry_nonpositive [OF h, of 1000 "entry0\<lparr>ExpireAt := ZeroOrExpiry 1000 (- 5)\<rparr>"
      New_Cache "''GET /test?''" 99999999 stamp proxy0 NewWriter request3 clock1 upstream_ok] e
  show ?thesis using h unfolding IsZero_def by blast
qed

section \<open>The deadline of the upstream request\<close>

lemma sint_word_of_int_Duration:
  "minDuration \<le> x \<Longrightarrow> x \<le> maxDuration \<Longrightarrow> sint (word_of_int x :: Duration) = x"
  unfolding maxDuration_def minDuration_def
  by (simp add: sint_sbintrunc' signed_take_bit_int_eq_self)

lemma sint_Sub_cases:
  "sint (Sub t u) = (if t - u > maxDuration then maxDuration else if t - u < minDuration then minDuration else t - u)"
proof -
  have le: "minDuration \<le> maxDuration" by (simp add: maxDuration_def minDuration_def)
  have hi: "sint (word_of_int maxDuration :: Duration) = maxDuration"
    using le by (intro sint_word_of_int_Duration) simp_all
  have lo: "sint (word_of_int minDuration :: Duration) = minDuration"
    using le by (intro sint_word_of_int_Duration) simp_all
  have mid: "\<not> t - u > maxDuration \<Longrightarrow> \<not> t - u < minDuration \<Longrightarrow>
      sint (word_of_int (t - u) :: Duration) = t - u"
    by (intro sint_word_of_int_Duration) simp_all
  show ?thesis
    unfolding Sub_def using hi lo mid by (simp del: of_int_diff)
qed

lemma Until_less:
  fixes d :: Duration
  assumes a: "sint (Until t now) < sint d"
  shows "t - now < sint d"
proof -
  have "sint d < 2 ^ 63" using sint_less [of d] by simp
  with a show ?thesis
    by (auto simp: Until_def sint_Sub_cases maxDuration_def minDuration_def split: if_splits)
qed

text \<open>
  C8. With a clock that does not run backwards between the two readings, the context
  that \<^verbatim>\<open>RequestContextWithTimeout\<close> returns has a deadline, and it is the minimum of
  the caller's deadline (when the caller has one) and \<open>now + d\<close>; so it is never later
  than the caller's deadline and never later than \<open>now + d\<close>. The outbound request is
  built with this context, from the inbound request's context and the configured timeout.
\<close>

theorem RequestContextWithTimeout_deadline:
  "now1 \<le> now2 \<Longrightarrow>
     Deadline (RequestContextWithTimeout parent d now1 now2) =
       Some (case Deadline parent of
               None \<Rightarrow> now2 + sint d
             | Some deadline \<Rightarrow> min deadline (now2 + sint d))
     \<and> (\<forall>t. Deadline (RequestContextWithTimeout parent d now1 now2) = Some t \<longrightarrow>
            t \<le> now2 + sint d \<and> (\<forall>deadline. Deadline parent = Some deadline \<longrightarrow> t \<le> deadline))
     \<and> req_Ctx (upstreamRequest p r now1 now2) =
          RequestContextWithTimeout (Ctx r) (client_Timeout p) now1 now2"
proof -
  assume le: "now1 \<le> now2"
  have eq: "Deadline (RequestContextWithTimeout parent d now1 now2) =
       Some (case Deadline parent of
               None \<Rightarrow> now2 + sint d
             | Some deadline \<Rightarrow> min deadline (now2 + sint d))"
  proof (cases "Deadline parent")
    case None
    then show ?thesis
      by (simp add: RequestContextWithTimeout_def WithTimeout_def WithDeadline_def Add_def)
  next
    case (Some deadline)
    show ?thesis
    proof (cases "sint (Until deadline now1) < sint d")
      case True
      from Until_less [OF True] le have "deadline < now2 + sint d" by simp
      with Some True show ?thesis
        by (simp add: RequestContextWithTimeout_def)
    next
      case False
      with Some show ?thesis
        by (auto simp: RequestContextWithTimeout_def WithTimeout_def WithDeadline_def Add_def Before_def)
    qed
  qed
  then show ?thesis by (auto simp: upstreamRequest_def split: option.splits)
qed

theorem RequestContextWithTimeout_deadline_witness:
  "(1000 :: Time) \<le> 1001
   \<and> Deadline (RequestContextWithTimeout \<lparr>Deadline = Some 1100\<rparr> 1000 1000 1001) = Some 1100
   \<and> Deadline (RequestContextWithTimeout \<lparr>Deadline = Some 9000\<rparr> 1000 1000 1001) = Some 2001
   \<and> Deadline (RequestContextWithTimeout Background 1000 1000 1001) = Some 2001"
proof -
  have h: "(1000 :: Time) \<le> 1001" by simp
  from RequestContextWithTimeout_deadline [OF h, of "\<lparr>Deadline = Some 1100\<rparr>" 1000]
  have a: "Deadline (RequestContextWithTimeout \<lparr>Deadline = Some 1100\<rparr> 1000 1000 1001) = Some 1100"
    by simp
  from RequestContextWithTimeout_deadline [OF h, of "\<lparr>Deadline = Some 9000\<rparr>" 1000]
  have b: "Deadline (RequestContextWithTimeout \<lparr>Deadline = Some 9000\<rparr> 1000 1000 1001) = Some 2001"
    by simp
  from RequestContextWithTimeout_deadline [OF h, of Background 1000]
  have c: "Deadline (RequestContextWithTimeout Background 1000 1000 1001) = Some 2001"
    by (simp add: Background_def)
  from h a b c show ?thesis by blast
qed

section \<open>Canonical header keys and hop-by-hop names\<close>

lemma lowerByte_canonByte [simp]: "lowerByte (canonByte u c) = lowerByte c"
  unfolding lowerByte_def canonByte_def isUpper_def isLower_def toLower_def
  by (auto simp: mod_less)

lemma canonByte_lowerByte [simp]: "canonByte u (lowerByte c) = canonByte u c"
  unfolding lowerByte_def canonByte_def isUpper_def isLower_def toLower_def
  by (auto simp: mod_less)

lemma canonByte_idem [simp]: "canonByte u (canonByte u c) = canonByte u c"
  unfolding lowerByte_def canonByte_def isUpper_def isLower_def toLower_def
  by (auto simp: mod_less)


lemma letter_valid: "isUpper c \<or> isLower c \<Longrightarrow> validHeaderFieldByte c"
  by (auto simp: validHeaderFieldByte_def)

lemma lowerByte_cases: "lowerByte c = c \<or> (isUpper c \<and> isLower (lowerByte c))"
  unfolding lowerByte_def isUpper_def isLower_def toLower_def
  by (auto simp: mod_less)

lemma canonByte_cases:
  "canonByte u c = c \<or> ((isUpper c \<or> isLower c) \<and> (isUpper (canonByte u c) \<or> isLower (canonByte u c)))"
  unfolding canonByte_def isUpper_def isLower_def toLower_def
  by (auto simp: mod_less)

lemma valid_lowerByte [simp]: "validHeaderFieldByte (lowerByte c) = validHeaderFieldByte c"
  using lowerByte_cases [of c] letter_valid by metis

lemma valid_canonByte [simp]: "validHeaderFieldByte (canonByte u c) = validHeaderFieldByte c"
  using canonByte_cases [of u c] letter_valid by metis


lemma ToLower_canonicalMIMEHeaderKey: "ToLower (canonicalMIMEHeaderKey u s) = ToLower s"
  by (induction s arbitrary: u) (simp_all add: ToLower_def)

lemma canonicalMIMEHeaderKey_ToLower: "canonicalMIMEHeaderKey u (ToLower s) = canonicalMIMEHeaderKey u s"
  by (induction s arbitrary: u) (simp_all add: ToLower_def)

lemma valid_ToLower: "list_all validHeaderFieldByte (ToLower s) = list_all validHeaderFieldByte s"
  by (induction s) (simp_all add: ToLower_def)

lemma valid_canonicalMIMEHeaderKey:
  "list_all validHeaderFieldByte (canonicalMIMEHeaderKey u s) = list_all validHeaderFieldByte s"
  by (induction s arbitrary: u) simp_all

lemma canonicalMIMEHeaderKey_idem:
  "canonicalMIMEHeaderKey u (canonicalMIMEHeaderKey u s) = canonicalMIMEHeaderKey u s"
  by (induction s arbitrary: u) simp_all

lemma CanonicalHeaderKey_idem [simp]:
  "CanonicalHeaderKey (CanonicalHeaderKey s) = CanonicalHeaderKey s"
  by (simp add: CanonicalHeaderKey_def CanonicalMIMEHeaderKey_def
      valid_canonicalMIMEHeaderKey canonicalMIMEHeaderKey_idem)

lemma ToLower_CanonicalHeaderKey: "ToLower (CanonicalHeaderKey s) = ToLower s"
  by (simp add: CanonicalHeaderKey_def CanonicalMIMEHeaderKey_def ToLower_canonicalMIMEHeaderKey)

lemma CanonicalHeaderKey_ToLower:
  "list_all validHeaderFieldByte s \<Longrightarrow> CanonicalHeaderKey (ToLower s) = CanonicalHeaderKey s"
  by (simp add: CanonicalHeaderKey_def CanonicalMIMEHeaderKey_def valid_ToLower
      canonicalMIMEHeaderKey_ToLower)

lemma IsHopByHopHeader_CanonicalHeaderKey [simp]:
  "IsHopByHopHeader (CanonicalHeaderKey k) = IsHopByHopHeader k"
  by (simp add: IsHopByHopHeader_def)

lemma hop_table_lower:
  "list_all (\<lambda>l. list_all validHeaderFieldByte l \<and> IsHopByHopHeader l) hopByHopLower"
  by code_simp

lemma hop_table_canonical:
  "list_all (\<lambda>h. ToLower h \<in> set hopByHopLower) [''Connection'', ''Proxy-Connection'', ''Keep-Alive'',
        ''Proxy-Authenticate'', ''Proxy-Authorization'', ''Te'', ''Trailer'',
        ''Transfer-Encoding'', ''Upgrade'']"
  by code_simp

lemma IsHopByHopHeader_iff: "IsHopByHopHeader key \<longleftrightarrow> ToLower key \<in> set hopByHopLower"
proof
  assume "IsHopByHopHeader key"
  then have "ToLower (CanonicalHeaderKey key) \<in> set hopByHopLower"
    unfolding IsHopByHopHeader_def using hop_table_canonical by (simp only: list_all_iff)
  then show "ToLower key \<in> set hopByHopLower"
    by (simp add: ToLower_CanonicalHeaderKey)
next
  assume a: "ToLower key \<in> set hopByHopLower"
  with hop_table_lower have v: "list_all validHeaderFieldByte (ToLower key)"
    and h: "IsHopByHopHeader (ToLower key)"
    unfolding list_all_iff by blast+
  from v have "list_all validHeaderFieldByte key" by (simp add: valid_ToLower)
  then have "CanonicalHeaderKey (ToLower key) = CanonicalHeaderKey key"
    by (rule CanonicalHeaderKey_ToLower)
  with h show "IsHopByHopHeader key" by (simp add: IsHopByHopHeader_def)
qed

section \<open>Copying headers\<close>

lemma index_Nil [simp]: "index [] k = []"
  by (simp add: index_def)

lemma index_Header_Add:
  "index (Header_Add h key v) k =
     (if k = CanonicalHeaderKey key then index h k @ [v] else index h k)"
  by (simp add: Header_Add_def index_def Let_def update_conv')

lemma index_Header_Set:
  "index (Header_Set h key v) k = (if k = CanonicalHeaderKey key then [v] else index h k)"
  by (simp add: Header_Set_def index_def update_conv')

lemma index_fold_Add:
  "index (fold (\<lambda>v dst. Header_Add dst key v) vv dst) k =
     (if k = CanonicalHeaderKey key then index dst k @ vv else index dst k)"
  by (induction vv arbitrary: dst) (simp_all add: index_Header_Add)

lemma CopyHeadersForUpstream_Client: "CopyHeadersForUpstream dst src = CopyHeadersForClient dst src"
  by (simp add: CopyHeadersForUpstream_def CopyHeadersForClient_def)

lemma CopyHeadersForClient_Nil [simp]: "CopyHeadersForClient dst [] = dst"
  by (simp add: CopyHeadersForClient_def)

lemma CopyHeadersForClient_Cons:
  "CopyHeadersForClient dst ((k, vv) # src) =
     CopyHeadersForClient
       (if IsHopByHopHeader k then dst else fold (\<lambda>v dst. Header_Add dst k v) vv dst) src"
  by (simp add: CopyHeadersForClient_def)

lemma index_CopyHeadersForClient:
  "index (CopyHeadersForClient dst src) n =
     index dst n @
     concat (map snd (filter (\<lambda>(k, vv). \<not> IsHopByHopHeader k \<and> CanonicalHeaderKey k = n) src))"
proof (induction src arbitrary: dst)
  case Nil
  show ?case by simp
next
  case (Cons p src)
  obtain k vv where p: "p = (k, vv)" by (cases p)
  show ?case
    unfolding p CopyHeadersForClient_Cons Cons.IH
    by (auto simp: index_fold_Add)
qed

lemma keys_Header_Add: "fst ` set (Header_Add h key v) = insert (CanonicalHeaderKey key) (fst ` set h)"
  by (simp add: Header_Add_def Let_def dom_update)

lemma keys_fold_Add:
  "fst ` set (fold (\<lambda>v dst. Header_Add dst key v) vv dst)
     \<subseteq> insert (CanonicalHeaderKey key) (fst ` set dst)"
proof (induction vv arbitrary: dst)
  case Nil
  show ?case by auto
next
  case (Cons v vv)
  have "fst ` set (fold (\<lambda>v dst. Header_Add dst key v) vv (Header_Add dst key v))
      \<subseteq> insert (CanonicalHeaderKey key) (fst ` set (Header_Add dst key v))"
    by (rule Cons.IH)
  then show ?case by (simp add: keys_Header_Add)
qed

lemma distinct_Header_Add: "distinct (map fst h) \<Longrightarrow> distinct (map fst (Header_Add h key v))"
  by (simp add: Header_Add_def Let_def distinct_update)

lemma distinct_fold_Add:
  "distinct (map fst dst) \<Longrightarrow> distinct (map fst (fold (\<lambda>v dst. Header_Add dst key v) vv dst))"
  by (induction vv arbitrary: dst) (simp_all add: distinct_Header_Add)

lemma sanitized_iff: "sanitized h \<longleftrightarrow> distinct (map fst h) \<and> clean_keys h"
  by (auto simp: sanitized_def clean_keys_def list_all_iff)

lemma clean_keys_fold_Add:
  assumes c: "clean_keys dst" and h: "\<not> IsHopByHopHeader key"
  shows "clean_keys (fold (\<lambda>v dst. Header_Add dst key v) vv dst)"
  unfolding clean_keys_def
proof
  fix k assume "k \<in> fst ` set (fold (\<lambda>v dst. Header_Add dst key v) vv dst)"
  with keys_fold_Add [of key vv dst]
  have "k = CanonicalHeaderKey key \<or> k \<in> fst ` set dst" by blast
  then show "CanonicalHeaderKey k = k \<and> \<not> IsHopByHopHeader k"
  proof
    assume "k = CanonicalHeaderKey key"
    with h show ?thesis by simp
  next
    assume "k \<in> fst ` set dst"
    with c show ?thesis unfolding clean_keys_def by blast
  qed
qed

lemma sanitized_CopyHeadersForClient:
  "sanitized dst \<Longrightarrow> sanitized (CopyHeadersForClient dst src)"
proof (induction src arbitrary: dst)
  case Nil
  then show ?case by simp
next
  case (Cons p src)
  obtain k vv where p: "p = (k, vv)" by (cases p)
  show ?case
    unfolding p CopyHeadersForClient_Cons
    using Cons.prems
    by (intro Cons.IH) (auto simp: sanitized_iff distinct_fold_Add clean_keys_fold_Add)
qed

lemma sanitized_CloneHeaderSanitized: "sanitized (CloneHeaderSanitized h)"
  unfolding CloneHeaderSanitized_def
  by (rule sanitized_CopyHeadersForClient) (simp add: sanitized_def)

lemma concat_filter_key:
  "distinct (map fst h) \<Longrightarrow>
     concat (map snd (filter (\<lambda>(k, vv). k = n) h)) = index h n"
proof (induction h)
  case Nil
  show ?case by simp
next
  case (Cons p h)
  obtain k vv where p: "p = (k, vv)" by (cases p)
  show ?case
  proof (cases "k = n")
    case True
    with Cons.prems p have "n \<notin> fst ` set h" by simp
    then have "filter (\<lambda>(k, vv). k = n) h = []"
      by (force simp: filter_empty_conv)
    with True p show ?thesis by (simp add: index_def)
  next
    case False
    with Cons p show ?thesis by (simp add: index_def)
  qed
qed

lemma index_Copy_sanitized:
  assumes "sanitized h"
  shows "index (CopyHeadersForClient [] h) n = index h n"
proof -
  from assms have "filter (\<lambda>(k, vv). \<not> IsHopByHopHeader k \<and> CanonicalHeaderKey k = n) h
      = filter (\<lambda>(k, vv). k = n) h"
    by (intro filter_cong) (auto simp: sanitized_def list_all_iff)
  with assms show ?thesis
    by (simp add: index_CopyHeadersForClient concat_filter_key sanitized_def)
qed

lemma filter_unique_key:
  "distinct (map (f \<circ> fst) src) \<Longrightarrow> (k, vv) \<in> set src \<Longrightarrow>
     filter (\<lambda>(k', vv'). f k' = f k) src = [(k, vv)]"
proof (induction src)
  case Nil
  then show ?case by simp
next
  case (Cons p src)
  obtain k' vv' where p: "p = (k', vv')" by (cases p)
  show ?case
  proof (cases "(k, vv) \<in> set src")
    case True
    with Cons.prems p have "f k' \<noteq> f k" by force
    with Cons True p show ?thesis by simp
  next
    case False
    with Cons.prems p have e: "k' = k" "vv' = vv" by auto
    from Cons.prems p e have "f k \<notin> (f \<circ> fst) ` set src" by simp
    then have "filter (\<lambda>(k', vv'). f k' = f k) src = []"
      by (force simp: filter_empty_conv)
    with p e show ?thesis by simp
  qed
qed

lemma filter_conj_unique:
  assumes "distinct (map (f \<circ> fst) src)" and "(k, vv) \<in> set src" and "P k"
  shows "filter (\<lambda>(k', vv'). P k' \<and> f k' = f k) src = [(k, vv)]"
proof -
  have "filter (\<lambda>(k', vv'). P k' \<and> f k' = f k) src
      = filter (\<lambda>(k', vv'). P k') (filter (\<lambda>(k', vv'). f k' = f k) src)"
    by (simp add: case_prod_unfold conj_commute)
  with assms show ?thesis by (simp add: filter_unique_key)
qed

lemma Values_Copy:
  "Header_Values (CopyHeadersForClient dst src) n =
     Header_Values dst n @
     concat (map snd (filter (\<lambda>(k, vv). \<not> IsHopByHopHeader k \<and>
                                   CanonicalHeaderKey k = CanonicalHeaderKey n) src))"
  by (simp add: Header_Values_def index_CopyHeadersForClient)

lemma Values_Copy_hop:
  assumes h: "IsHopByHopHeader n"
  shows "Header_Values (CopyHeadersForClient [] src) n = []"
proof -
  have "\<And>k. CanonicalHeaderKey k = CanonicalHeaderKey n \<Longrightarrow> IsHopByHopHeader k"
  proof -
    fix k assume "CanonicalHeaderKey k = CanonicalHeaderKey n"
    then have "IsHopByHopHeader (CanonicalHeaderKey k) = IsHopByHopHeader (CanonicalHeaderKey n)"
      by simp
    with h show "IsHopByHopHeader k" by simp
  qed
  then have "filter (\<lambda>(k, vv). \<not> IsHopByHopHeader k \<and>
                                   CanonicalHeaderKey k = CanonicalHeaderKey n) src = []"
    by (auto simp: filter_empty_conv)
  then show ?thesis by (simp add: Header_Values_def index_CopyHeadersForClient)
qed

lemma Values_Copy_subset:
  "\<forall>(k, vv) \<in> set src. \<not> IsHopByHopHeader k \<longrightarrow>
         set vv \<subseteq> set (Header_Values (CopyHeadersForClient dst src) k)"
  by (force simp: Values_Copy)

lemma Values_Copy_exact:
  assumes d: "distinct (map (CanonicalHeaderKey \<circ> fst) src)"
  shows "\<forall>(k, vv) \<in> set src. \<not> IsHopByHopHeader k \<longrightarrow>
           Header_Values (CopyHeadersForClient [] src) k = vv"
proof (intro ballI, clarify)
  fix k vv assume m: "(k, vv) \<in> set src" and n: "\<not> IsHopByHopHeader k"
  from filter_conj_unique [of CanonicalHeaderKey src k vv "\<lambda>k. \<not> IsHopByHopHeader k", OF d m n]
  show "Header_Values (CopyHeadersForClient [] src) k = vv"
    by (simp add: Header_Values_def index_CopyHeadersForClient)
qed

lemma keys_Copy_not_hop:
  "\<forall>k \<in> fst ` set (CopyHeadersForClient [] src). \<not> IsHopByHopHeader k"
  using sanitized_CopyHeadersForClient [of "[]" src]
  by (auto simp: sanitized_def list_all_iff)

text \<open>
  C6. Both copy operations are the same function. Under every name \<open>n\<close> the output
  holds what the destination held, followed by the values of every source entry that is
  not hop-by-hop and whose name has the canonical form of \<open>n\<close>. A name is hop-by-hop
  exactly when its lower-case form is one of the nine names. Copying into an empty
  destination, as every call site does, leaves no hop-by-hop key and no value under a
  hop-by-hop name; every value of a name that is not hop-by-hop is in the output under
  that name, and when no two source names share a canonical form (as in the maps net/http
  builds) the output holds under that name exactly the source's list of values. The
  headers of the outbound request are such a copy of the inbound headers into an empty
  map, and so are the stored headers and, on both response paths, the headers sent to
  the client.
\<close>

theorem CopyHeaders_hop_by_hop:
  "CopyHeadersForUpstream dst src = CopyHeadersForClient dst src
   \<and> Header_Values (CopyHeadersForClient dst src) n =
       Header_Values dst n @
       concat (map snd (filter (\<lambda>(k, vv). \<not> IsHopByHopHeader k \<and>
                                     CanonicalHeaderKey k = CanonicalHeaderKey n) src))
   \<and> (IsHopByHopHeader n \<longleftrightarrow> ToLower n \<in> set hopByHopLower)
   \<and> (\<forall>k \<in> fst ` set (CopyHeadersForClient [] src). \<not> IsHopByHopHeader k)
   \<and> (IsHopByHopHeader n \<longrightarrow> Header_Values (CopyHeadersForClient [] src) n = [])
   \<and> (\<forall>(k, vv) \<in> set src. \<not> IsHopByHopHeader k \<longrightarrow>
         set vv \<subseteq> set (Header_Values (CopyHeadersForClient dst src) k))
   \<and> (distinct (map (CanonicalHeaderKey \<circ> fst) src) \<longrightarrow>
        (\<forall>(k, vv) \<in> set src. \<not> IsHopByHopHeader k \<longrightarrow>
           Header_Values (CopyHeadersForClient [] src) k = vv))
   \<and> req_Header (upstreamRequest p r now1 now2) = CopyHeadersForClient [] (ReqHeader r)"
proof (intro conjI impI)
  show "req_Header (upstreamRequest p r now1 now2) = CopyHeadersForClient [] (ReqHeader r)"
    by (simp add: upstreamRequest_def CopyHeadersForUpstream_Client)
  show "CopyHeadersForUpstream dst src = CopyHeadersForClient dst src"
    by (rule CopyHeadersForUpstream_Client)
  show "Header_Values (CopyHeadersForClient dst src) n =
       Header_Values dst n @
       concat (map snd (filter (\<lambda>(k, vv). \<not> IsHopByHopHeader k \<and>
                                     CanonicalHeaderKey k = CanonicalHeaderKey n) src))"
    by (rule Values_Copy)
  show "IsHopByHopHeader n \<longleftrightarrow> ToLower n \<in> set hopByHopLower"
    by (rule IsHopByHopHeader_iff)
  show "\<forall>k \<in> fst ` set (CopyHeadersForClient [] src). \<not> IsHopByHopHeader k"
    by (rule keys_Copy_not_hop)
  show "IsHopByHopHeader n \<Longrightarrow> Header_Values (CopyHeadersForClient [] src) n = []"
    by (rule Values_Copy_hop)
  show "\<forall>(k, vv) \<in> set src. \<not> IsHopByHopHeader k \<longrightarrow>
         set vv \<subseteq> set (Header_Values (CopyHeadersForClient dst src) k)"
    by (rule Values_Copy_subset)
  show "distinct (map (CanonicalHeaderKey \<circ> fst) src) \<Longrightarrow>
        \<forall>(k, vv) \<in> set src. \<not> IsHopByHopHeader k \<longrightarrow>
           Header_Values (CopyHeadersForClient [] src) k = vv"
    by (rule Values_Copy_exact)
qed

lemma headers0_facts:
  "distinct (map (CanonicalHeaderKey \<circ> fst) headers0)"
  "(''X-Custom'', [''a'', ''b'']) \<in> set headers0"
  "\<not> IsHopByHopHeader ''X-Custom''"
  "IsHopByHopHeader ''Transfer-Encoding''"
  "IsHopByHopHeader ''CONNECTION''"
  by code_simp+

theorem CopyHeaders_hop_by_hop_witness:
  "distinct (map (CanonicalHeaderKey \<circ> fst) headers0)
   \<and> (''X-Custom'', [''a'', ''b'']) \<in> set headers0
   \<and> \<not> IsHopByHopHeader ''X-Custom''
   \<and> IsHopByHopHeader ''Transfer-Encoding''
   \<and> IsHopByHopHeader ''CONNECTION''
   \<and> Header_Values (CopyHeadersForUpstream [] headers0) ''X-Custom'' = [''a'', ''b'']
   \<and> Header_Values (CopyHeadersForUpstream [] headers0) ''Transfer-Encoding'' = []
   \<and> Header_Values (CopyHeadersForClient [] headers0) ''CONNECTION'' = []"
proof -
  note f = headers0_facts
  note t1 = CopyHeaders_hop_by_hop [of "[]" headers0 "''X-Custom''" proxy0 request3 0 0]
  note t2 = CopyHeaders_hop_by_hop [of "[]" headers0 "''Transfer-Encoding''" proxy0 request3 0 0]
  note t3 = CopyHeaders_hop_by_hop [of "[]" headers0 "''CONNECTION''" proxy0 request3 0 0]
  from t1 have u: "CopyHeadersForUpstream [] headers0 = CopyHeadersForClient [] headers0"
    by (rule conjunct1)
  from t1 f(1) have "\<forall>(k, vv) \<in> set headers0. \<not> IsHopByHopHeader k \<longrightarrow>
           Header_Values (CopyHeadersForClient [] headers0) k = vv"
    by (elim conjE) (erule mp)
  with f(2) have "\<not> IsHopByHopHeader ''X-Custom'' \<longrightarrow>
      Header_Values (CopyHeadersForClient [] headers0) ''X-Custom'' = [''a'', ''b'']"
    by fast
  with f(3) u
  have a: "Header_Values (CopyHeadersForUpstream [] headers0) ''X-Custom'' = [''a'', ''b'']"
    by simp
  from t2 f(4) have "Header_Values (CopyHeadersForClient [] headers0) ''Transfer-Encoding'' = []"
    by blast
  with u
  have b: "Header_Values (CopyHeadersForUpstream [] headers0) ''Transfer-Encoding'' = []"
    by simp
  from t3 f(5)
  have c: "Header_Values (CopyHeadersForClient [] headers0) ''CONNECTION'' = []"
    by blast
  from f a b c show ?thesis by blast
qed

section \<open>The cache key\<close>

lemma fold_segments:
  "fold (\<lambda>headerName key.
             let headerValue = Header_Get h headerName
             in if headerValue \<noteq> [] then key @ ''|'' @ headerName @ '':'' @ headerValue else key)
        hs key = key @ concat (map (segment h) hs)"
  by (induction hs arbitrary: key) (simp_all add: segment_def Let_def)

lemma cacheKey_format:
  "cacheKey p r = Method r @ '' '' @ URL_Path r @ ''?'' @ URL_RawQuery r
      @ concat (map (segment (ReqHeader r)) (keyHeaders p))"
  by (simp add: cacheKey_def fold_segments)

lemma segments_hd:
  "concat (map (segment h) hs) = [] \<or> hd (concat (map (segment h) hs)) = CHR ''|''"
  by (induction hs) (auto simp: segment_def)

lemma segments_start:
  "concat (map (segment h) hs) \<noteq> [] \<Longrightarrow>
     \<exists>n \<in> set hs. \<exists>rest. Header_Get h n \<noteq> [] \<and>
        concat (map (segment h) hs) = CHR ''|'' # n @ CHR '':'' # rest"
proof (induction hs)
  case Nil
  then show ?case by simp
next
  case (Cons a hs)
  show ?case
  proof (cases "Header_Get h a = []")
    case True
    with Cons show ?thesis by (auto simp: segment_def)
  next
    case False
    then show ?thesis by (auto simp: segment_def)
  qed
qed

lemma takeWhile_value:
  "c \<notin> set v \<Longrightarrow> s = [] \<or> hd s = c \<Longrightarrow> takeWhile (\<lambda>x. x \<noteq> c) (v @ s) = v"
  by (induction v) (cases s; auto)+

lemma append_value_eq:
  assumes "c \<notin> set v" "c \<notin> set w" "s = [] \<or> hd s = c" "t = [] \<or> hd t = c" "v @ s = w @ t"
  shows "v = w \<and> s = t"
proof -
  from assms(1,3) have "takeWhile (\<lambda>x. x \<noteq> c) (v @ s) = v" by (rule takeWhile_value)
  moreover from assms(2,4) have "takeWhile (\<lambda>x. x \<noteq> c) (w @ t) = w" by (rule takeWhile_value)
  ultimately have "v = w" using assms(5) by metis
  with assms(5) show ?thesis by simp
qed

lemma segments_inject:
  assumes names: "\<forall>n \<in> set hs. CHR '':'' \<notin> set n"
    and vals: "\<forall>n \<in> set hs. CHR ''|'' \<notin> set (Header_Get h1 n) \<and> CHR ''|'' \<notin> set (Header_Get h2 n)"
    and eq: "concat (map (segment h1) hs) = concat (map (segment h2) hs)"
  shows "\<forall>n \<in> set hs. Header_Get h1 n = Header_Get h2 n"
  using assms
proof (induction hs)
  case Nil
  show ?case by simp
next
  case (Cons a hs)
  let ?S1 = "concat (map (segment h1) hs)" and ?S2 = "concat (map (segment h2) hs)"
  have absent: "False"
    if e: "Header_Get g a = []" and s: "concat (map (segment g) hs) = CHR ''|'' # a @ CHR '':'' # r"
    and nm: "\<forall>n \<in> set (a # hs). CHR '':'' \<notin> set n" for g r
  proof -
    from s have "concat (map (segment g) hs) \<noteq> []" by simp
    from segments_start [OF this] obtain n rest where n: "n \<in> set hs" "Header_Get g n \<noteq> []"
      "concat (map (segment g) hs) = CHR ''|'' # n @ CHR '':'' # rest" by blast
    with s have "n @ CHR '':'' # rest = a @ CHR '':'' # r" by simp
    moreover from nm n(1) have "CHR '':'' \<notin> set n" "CHR '':'' \<notin> set a" by auto
    ultimately have "n = a"
      using append_value_eq [of "CHR '':''" n a "CHR '':'' # rest" "CHR '':'' # r"] by simp
    with e n(2) show False by simp
  qed
  consider (none) "Header_Get h1 a = []" "Header_Get h2 a = []"
    | (both) "Header_Get h1 a \<noteq> []" "Header_Get h2 a \<noteq> []"
    | (left) "Header_Get h1 a = []" "Header_Get h2 a \<noteq> []"
    | (right) "Header_Get h1 a \<noteq> []" "Header_Get h2 a = []"
    by blast
  then show ?case
  proof cases
    case none
    then have "segment h1 a = []" "segment h2 a = []" by (simp_all add: segment_def)
    with Cons.prems(3) have "?S1 = ?S2" by simp
    with Cons.IH Cons.prems(1,2) none show ?thesis by simp
  next
    case both
    then have "segment h1 a = ''|'' @ a @ '':'' @ Header_Get h1 a"
      "segment h2 a = ''|'' @ a @ '':'' @ Header_Get h2 a" by (simp_all add: segment_def)
    with Cons.prems(3) have "Header_Get h1 a @ ?S1 = Header_Get h2 a @ ?S2"
      by simp
    with append_value_eq [of "CHR ''|''" "Header_Get h1 a" "Header_Get h2 a" ?S1 ?S2]
      segments_hd [of h1 hs] segments_hd [of h2 hs] Cons.prems(2)
    have "Header_Get h1 a = Header_Get h2 a \<and> ?S1 = ?S2" by simp
    with Cons.IH Cons.prems(1,2) show ?thesis by simp
  next
    case left
    then have "segment h1 a = []"
      "segment h2 a = ''|'' @ a @ '':'' @ Header_Get h2 a" by (simp_all add: segment_def)
    with Cons.prems(3) have "?S1 = CHR ''|'' # a @ CHR '':'' # (Header_Get h2 a @ ?S2)"
      by simp
    from absent [OF left(1) this Cons.prems(1)] show ?thesis ..
  next
    case right
    then have "segment h2 a = []"
      "segment h1 a = ''|'' @ a @ '':'' @ Header_Get h1 a" by (simp_all add: segment_def)
    with Cons.prems(3) have "?S2 = CHR ''|'' # a @ CHR '':'' # (Header_Get h1 a @ ?S1)"
      by simp
    from absent [OF right(2) this Cons.prems(1)] show ?thesis ..
  qed
qed

lemma Header_Get_case_insensitive:
  assumes "ToLower n = ToLower n'" and "list_all validHeaderFieldByte n"
  shows "Header_Get h n = Header_Get h n'"
proof -
  from assms have "list_all validHeaderFieldByte n'" by (metis valid_ToLower)
  then have "CanonicalHeaderKey (ToLower n') = CanonicalHeaderKey n'"
    by (rule CanonicalHeaderKey_ToLower)
  moreover from assms(2) have "CanonicalHeaderKey (ToLower n) = CanonicalHeaderKey n"
    by (rule CanonicalHeaderKey_ToLower)
  ultimately have "CanonicalHeaderKey n = CanonicalHeaderKey n'" using assms(1) by simp
  then show ?thesis by (simp add: Header_Get_def)
qed

lemma cacheKey_deterministic:
  assumes "Method r = Method r'" "URL_Path r = URL_Path r'" "URL_RawQuery r = URL_RawQuery r'"
    and "\<forall>n \<in> set (keyHeaders p). Header_Get (ReqHeader r) n = Header_Get (ReqHeader r') n"
  shows "cacheKey p r = cacheKey p r'"
proof -
  from assms(4) have "map (segment (ReqHeader r)) (keyHeaders p) = map (segment (ReqHeader r')) (keyHeaders p)"
    by (intro map_cong) (simp_all add: segment_def)
  with assms(1-3) show ?thesis by (simp only: cacheKey_format)
qed

lemma cacheKey_sensitive:
  assumes "Method r = Method r'" "URL_Path r = URL_Path r'" "URL_RawQuery r = URL_RawQuery r'"
    and ok: "\<forall>n \<in> set (keyHeaders p). CHR '':'' \<notin> set n
          \<and> CHR ''|'' \<notin> set (Header_Get (ReqHeader r) n)
          \<and> CHR ''|'' \<notin> set (Header_Get (ReqHeader r') n)"
    and diff: "\<exists>n \<in> set (keyHeaders p). Header_Get (ReqHeader r) n \<noteq> Header_Get (ReqHeader r') n"
  shows "cacheKey p r \<noteq> cacheKey p r'"
proof
  assume "cacheKey p r = cacheKey p r'"
  with assms(1-3) have "concat (map (segment (ReqHeader r)) (keyHeaders p))
      = concat (map (segment (ReqHeader r')) (keyHeaders p))"
    by (simp add: cacheKey_format)
  with ok have "\<forall>n \<in> set (keyHeaders p). Header_Get (ReqHeader r) n = Header_Get (ReqHeader r') n"
    by (intro segments_inject) auto
  with diff show False by blast
qed

text \<open>
  C5 (as amended). The key is \<^verbatim>\<open><METHOD> <path>?<rawQuery>\<close> followed by the segments
  of the configured header names in configuration order. The lookup does not depend on
  the case in which a configured name is spelled. Requests that agree on method, path,
  query and the values of the configured headers get the same key. Requests that agree
  on method, path and query and differ in the value of a configured header get different
  keys, provided no configured name contains \<^verbatim>\<open>:\<close> and none of the values of the
  configured headers contains \<^verbatim>\<open>|\<close>.
\<close>

theorem cacheKey_format_sensitivity:
  "cacheKey p r = Method r @ '' '' @ URL_Path r @ ''?'' @ URL_RawQuery r
      @ concat (map (segment (ReqHeader r)) (keyHeaders p))
   \<and> (ToLower n = ToLower n' \<and> list_all validHeaderFieldByte n \<longrightarrow>
        Header_Get (ReqHeader r) n = Header_Get (ReqHeader r) n')
   \<and> (Method r = Method r' \<and> URL_Path r = URL_Path r' \<and> URL_RawQuery r = URL_RawQuery r'
        \<and> (\<forall>n \<in> set (keyHeaders p). Header_Get (ReqHeader r) n = Header_Get (ReqHeader r') n)
        \<longrightarrow> cacheKey p r = cacheKey p r')
   \<and> (Method r = Method r' \<and> URL_Path r = URL_Path r' \<and> URL_RawQuery r = URL_RawQuery r'
        \<and> (\<forall>n \<in> set (keyHeaders p). CHR '':'' \<notin> set n
              \<and> CHR ''|'' \<notin> set (Header_Get (ReqHeader r) n)
              \<and> CHR ''|'' \<notin> set (Header_Get (ReqHeader r') n))
        \<and> (\<exists>n \<in> set (keyHeaders p). Header_Get (ReqHeader r) n \<noteq> Header_Get (ReqHeader r') n)
        \<longrightarrow> cacheKey p r \<noteq> cacheKey p r')"
proof (intro conjI impI)
  show "cacheKey p r = Method r @ '' '' @ URL_Path r @ ''?'' @ URL_RawQuery r
      @ concat (map (segment (ReqHeader r)) (keyHeaders p))"
    by (rule cacheKey_format)
  show "Header_Get (ReqHeader r) n = Header_Get (ReqHeader r) n'"
    if "ToLower n = ToLower n' \<and> list_all validHeaderFieldByte n"
    using that by (intro Header_Get_case_insensitive) simp_all
  show "cacheKey p r = cacheKey p r'"
    if "Method r = Method r' \<and> URL_Path r = URL_Path r' \<and> URL_RawQuery r = URL_RawQuery r'
        \<and> (\<forall>n \<in> set (keyHeaders p). Header_Get (ReqHeader r) n = Header_Get (ReqHeader r') n)"
    using that by (intro cacheKey_deterministic) simp_all
  show "cacheKey p r \<noteq> cacheKey p r'"
    if "Method r = Method r' \<and> URL_Path r = URL_Path r' \<and> URL_RawQuery r = URL_RawQuery r'
        \<and> (\<forall>n \<in> set (keyHeaders p). CHR '':'' \<notin> set n
              \<and> CHR ''|'' \<notin> set (Header_Get (ReqHeader r) n)
              \<and> CHR ''|'' \<notin> set (Header_Get (ReqHeader r') n))
        \<and> (\<exists>n \<in> set (keyHeaders p). Header_Get (ReqHeader r) n \<noteq> Header_Get (ReqHeader r') n)"
    using that by (intro cacheKey_sensitive) simp_all
qed

lemma request34_facts:
  "Method request3 = Method request4 \<and> URL_Path request3 = URL_Path request4
     \<and> URL_RawQuery request3 = URL_RawQuery request4"
  "list_all (\<lambda>n. CHR '':'' \<notin> set n
              \<and> CHR ''|'' \<notin> set (Header_Get (ReqHeader request3) n)
              \<and> CHR ''|'' \<notin> set (Header_Get (ReqHeader request4) n)) (keyHeaders proxy0)"
  "list_ex (\<lambda>n. Header_Get (ReqHeader request3) n \<noteq> Header_Get (ReqHeader request4) n)
      (keyHeaders proxy0)"
  "ToLower ''authorization'' = ToLower ''AUTHORIZATION''"
  "list_all validHeaderFieldByte ''authorization''"
  "Header_Get (ReqHeader request3) ''authorization'' = ''Bearer token1''"
  "Method request3 @ '' '' @ URL_Path request3 @ ''?'' @ URL_RawQuery request3
      @ concat (map (segment (ReqHeader request3)) (keyHeaders proxy0))
    = ''GET /api/data?page=1|X-Tenant-ID:acme|authorization:Bearer token1''"
  by code_simp+

theorem cacheKey_format_sensitivity_witness:
  "Method request3 = Method request4 \<and> URL_Path request3 = URL_Path request4
   \<and> URL_RawQuery request3 = URL_RawQuery request4
   \<and> list_all (\<lambda>n. CHR '':'' \<notin> set n
              \<and> CHR ''|'' \<notin> set (Header_Get (ReqHeader request3) n)
              \<and> CHR ''|'' \<notin> set (Header_Get (ReqHeader request4) n)) (keyHeaders proxy0)
   \<and> list_ex (\<lambda>n. Header_Get (ReqHeader request3) n \<noteq> Header_Get (ReqHeader request4) n)
        (keyHeaders proxy0)
   \<and> ToLower ''authorization'' = ToLower ''AUTHORIZATION''
   \<and> list_all validHeaderFieldByte ''authorization''
   \<and> cacheKey proxy0 request3 = ''GET /api/data?page=1|X-Tenant-ID:acme|authorization:Bearer token1''
   \<and> Header_Get (ReqHeader request3) ''AUTHORIZATION'' = ''Bearer token1''
   \<and> cacheKey proxy0 request3 = cacheKey proxy0 request3
   \<and> cacheKey proxy0 request3 \<noteq> cacheKey proxy0 request4"
proof -
  note f = request34_facts
  note t = cacheKey_format_sensitivity [of proxy0 request3 "''authorization''" "''AUTHORIZATION''" request4]
  from t f(7) have a: "cacheKey proxy0 request3
      = ''GET /api/data?page=1|X-Tenant-ID:acme|authorization:Bearer token1''"
    by (elim conjE) (erule trans)
  from t f(4,5) have "Header_Get (ReqHeader request3) ''authorization''
      = Header_Get (ReqHeader request3) ''AUTHORIZATION''"
    by blast
  with f(6) have b: "Header_Get (ReqHeader request3) ''AUTHORIZATION'' = ''Bearer token1''"
    by simp
  from f(2) have ok: "\<forall>n \<in> set (keyHeaders proxy0). CHR '':'' \<notin> set n
              \<and> CHR ''|'' \<notin> set (Header_Get (ReqHeader request3) n)
              \<and> CHR ''|'' \<notin> set (Header_Get (ReqHeader request4) n)"
    by (simp only: list_all_iff)
  from f(3) have ex: "\<exists>n \<in> set (keyHeaders proxy0).
      Header_Get (ReqHeader request3) n \<noteq> Header_Get (ReqHeader request4) n"
    by (simp only: list_ex_iff)
  from t f(1) ok ex have c: "cacheKey proxy0 request3 \<noteq> cacheKey proxy0 request4"
    by blast
  from f a b c show ?thesis by simp
qed

text \<open>
  C5 as stated fails: the segments are joined without escaping, so two requests with
  different values of the configured headers can have one key. Here both keys are
  \<^verbatim>\<open>GET /api/data?page=1|X-Tenant-ID:a|authorization:b|authorization:c\<close>.
\<close>

theorem cacheKey_delimiter_counterexample:
  "Method request1 = Method request2 \<and> URL_Path request1 = URL_Path request2
   \<and> URL_RawQuery request1 = URL_RawQuery request2
   \<and> Header_Get (ReqHeader request1) ''authorization'' \<noteq> Header_Get (ReqHeader request2) ''authorization''
   \<and> cacheKey proxy0 request1 = cacheKey proxy0 request2"
  by code_simp

section \<open>The handler\<close>

lemma ServeHTTP_failed:
  "cacheable r \<Longrightarrow> failed att \<Longrightarrow>
     ServeHTTP F p c w r clk att = tryServeFromCache F c w (cacheKey p r) (cause att) (now_Get clk)"
  by (cases att) (simp_all add: ServeHTTP_def failed_def cause_def)

lemma ServeHTTP_error:
  "\<not> cacheable r \<Longrightarrow> att = BuildError err \<or> att = TransportError err \<or> att = ReadError err \<Longrightarrow>
     ServeHTTP F p c w r clk att = (http_Error w (''Bad Gateway: '' @ err) 502, c)"
  by (auto simp: ServeHTTP_def)

lemma ServeHTTP_forward:
  assumes "\<not> (status \<ge> 500 \<and> cacheable r)"
  shows "ServeHTTP F p c w r clk (Replied status header body) =
     (case WriteHeader
             (w\<lparr>w_Header :=
                  Header_Set
                    (Header_Set (CopyHeadersForClient (w_Header w) header) ''X-Served-By'' ''Aegis'')
                    ''X-Cache''
                    (if cacheable r \<and> 200 \<le> status \<and> status \<le> 299 then ''MISS''
                     else if cacheable r then ''PASS'' else ''BYPASS'')\<rparr>) status of
        Inl e \<Rightarrow> Inl e
      | Inr w' \<Rightarrow> Inr (Write w' body),
      if cacheable r \<and> 200 \<le> status \<and> status \<le> 299
      then Set c (cacheKey p r) (stored p clk status header body) else c)"
proof -
  from assms have n: "(status \<ge> 500 \<and> cacheable r) = False" by simp
  show ?thesis
    unfolding ServeHTTP_def by (simp only: attempt.case n if_False Let_def stored_def) simp
qed

lemma tryServeFromCache_cache [simp]: "snd (tryServeFromCache F c w key why now) = c"
  by (simp add: tryServeFromCache_def Get_def split: option.splits)

lemma tryServeFromCache_hit:
  assumes "fst (Get c key now) = (e, True)" and "100 \<le> Status e" and "Status e \<le> 999"
  shows "fst (tryServeFromCache F c w key why now) =
     Inr (w\<lparr>w_Header :=
               Header_Set
                 (Header_Set
                    (Header_Set (CopyHeadersForClient (w_Header w) (Header e)) ''X-Served-By'' ''Aegis'')
                    ''X-Cache'' ''HIT-BACKUP'')
                 ''X-Backup-Saved-At'' (F (SavedAt e)),
            w_Code := Status e, w_Body := w_Body w @ Body e\<rparr>)"
proof -
  obtain c' where "Get c key now = ((e, True), c')"
    using assms(1) by (cases "Get c key now") auto
  with assms(2,3) show ?thesis
    by (simp add: tryServeFromCache_def WriteHeader_def Write_def Let_def)
qed

lemma http_Error_502:
  "http_Error w msg 502 =
     Inr (w\<lparr>w_Header :=
               Header_Set
                 (Header_Set (Header_Del (w_Header w) ''Content-Length'')
                    ''Content-Type'' ''text/plain; charset=utf-8'')
                 ''X-Content-Type-Options'' ''nosniff'',
            w_Code := 502, w_Body := w_Body w @ msg @ [CHR 0x0A]\<rparr>)"
  by (simp add: http_Error_def WriteHeader_def Write_def Let_def)

lemma tryServeFromCache_miss:
  assumes "\<not> snd (fst (Get c key now))"
  shows "fst (tryServeFromCache F c w key why now) =
     http_Error w (''Bad Gateway (no cached backup): '' @ why) 502"
proof -
  obtain e c' where "Get c key now = ((e, False), c')"
    using assms by (cases "Get c key now") auto
  then show ?thesis by (simp add: tryServeFromCache_def)
qed

lemma Values_Set:
  "Header_Values (Header_Set h k v) n =
     (if CanonicalHeaderKey n = CanonicalHeaderKey k then [v] else Header_Values h n)"
  by (simp add: Header_Values_def index_Header_Set)

lemma annotation_names:
  "CanonicalHeaderKey ''X-Cache'' \<noteq> CanonicalHeaderKey ''X-Backup-Saved-At''"
  "CanonicalHeaderKey ''X-Served-By'' \<noteq> CanonicalHeaderKey ''X-Backup-Saved-At''"
  "CanonicalHeaderKey ''X-Served-By'' \<noteq> CanonicalHeaderKey ''X-Cache''"
  by code_simp+

lemma WriteHeader_valid:
  "100 \<le> code \<Longrightarrow> code \<le> 999 \<Longrightarrow> WriteHeader w code = Inr (w\<lparr>w_Code := code\<rparr>)"
  by (simp add: WriteHeader_def)

lemma sanitized_stored: "sanitized (Header (stored p clk status header body))"
  by (simp add: stored_def sanitized_CloneHeaderSanitized)

lemma ServeHTTP_cache:
  "snd (ServeHTTP F p c w r clk att) =
     (case att of
        Replied status header body \<Rightarrow>
          if cacheable r \<and> 200 \<le> status \<and> status \<le> 299
          then Set c (cacheKey p r) (stored p clk status header body) else c
      | _ \<Rightarrow> c)"
proof (cases att)
  case (Replied status header body)
  show ?thesis
  proof (cases "status \<ge> 500 \<and> cacheable r")
    case True
    then have "failed att" "cacheable r" by (simp_all add: failed_def Replied)
    with True show ?thesis by (simp add: ServeHTTP_failed Replied)
  next
    case False
    then show ?thesis unfolding Replied by (simp add: ServeHTTP_forward)
  qed
next
  case (BuildError err)
  then show ?thesis
    by (cases "cacheable r") (simp_all add: ServeHTTP_failed ServeHTTP_error failed_def)
next
  case (TransportError err)
  then show ?thesis
    by (cases "cacheable r") (simp_all add: ServeHTTP_failed ServeHTTP_error failed_def)
next
  case (ReadError err)
  then show ?thesis
    by (cases "cacheable r") (simp_all add: ServeHTTP_failed ServeHTTP_error failed_def)
qed

lemma forward_response:
  assumes n: "\<not> (status \<ge> 500 \<and> cacheable r)" and v: "100 \<le> status" "status \<le> 999"
  shows "fst (ServeHTTP F p c w r clk (Replied status header body)) =
     Inr (w\<lparr>w_Header :=
                  Header_Set
                    (Header_Set (CopyHeadersForClient (w_Header w) header) ''X-Served-By'' ''Aegis'')
                    ''X-Cache''
                    (if cacheable r \<and> 200 \<le> status \<and> status \<le> 299 then ''MISS''
                     else if cacheable r then ''PASS'' else ''BYPASS''),
               w_Code := status, w_Body := w_Body w @ body\<rparr>)"
  using v by (simp add: ServeHTTP_forward [OF n] WriteHeader_def Write_def)


text \<open>
  C7. A handler run leaves the cache as it was unless the request is cacheable and the
  upstream answered with a status in 200..299; in that case it sets exactly the entry
  for the request's key. A non-cacheable method, a status outside 200..299 and a failed
  attempt all leave the cache unchanged. A cacheable request answered with 404 is
  passed through with \<^verbatim>\<open>X-Cache: PASS\<close>, and the slot of its key is what it was.
\<close>

theorem ServeHTTP_store_frame:
  "(\<not> cacheable r \<longrightarrow> snd (ServeHTTP F p c w r clk att) = c)
   \<and> (att = Replied status header body \<and> \<not> (200 \<le> status \<and> status \<le> 299) \<longrightarrow>
        snd (ServeHTTP F p c w r clk att) = c)
   \<and> (att = BuildError err \<or> att = TransportError err \<or> att = ReadError err \<longrightarrow>
        snd (ServeHTTP F p c w r clk att) = c)
   \<and> (cacheable r \<and> att = Replied status header body \<and> 200 \<le> status \<and> status \<le> 299 \<longrightarrow>
        snd (ServeHTTP F p c w r clk att) =
          Set c (cacheKey p r)
            \<lparr>Status = status, Header = CloneHeaderSanitized header, Body = body,
             SavedAt = now_Saved clk, ExpireAt = ZeroOrExpiry (now_Expiry clk) (ttl p)\<rparr>)
   \<and> (cacheable r \<and> att = Replied 404 header body \<longrightarrow>
        fst (ServeHTTP F p c NewWriter r clk att) =
          Inr \<lparr>w_Header = Header_Set (Header_Set (CopyHeadersForClient [] header)
                              ''X-Served-By'' ''Aegis'') ''X-Cache'' ''PASS'',
               w_Code = 404, w_Body = body\<rparr>
        \<and> Mapping.lookup (data (snd (ServeHTTP F p c NewWriter r clk att))) (cacheKey p r)
            = Mapping.lookup (data c) (cacheKey p r))"
proof (intro conjI impI)
  show "snd (ServeHTTP F p c w r clk att) = c" if "\<not> cacheable r"
    using that by (simp add: ServeHTTP_cache split: attempt.splits)
  show "snd (ServeHTTP F p c w r clk att) = c"
    if "att = Replied status header body \<and> \<not> (200 \<le> status \<and> status \<le> 299)"
    using that by (auto simp: ServeHTTP_cache)
  show "snd (ServeHTTP F p c w r clk att) = c"
    if "att = BuildError err \<or> att = TransportError err \<or> att = ReadError err"
    using that by (auto simp: ServeHTTP_cache)
  show "snd (ServeHTTP F p c w r clk att) =
          Set c (cacheKey p r)
            \<lparr>Status = status, Header = CloneHeaderSanitized header, Body = body,
             SavedAt = now_Saved clk, ExpireAt = ZeroOrExpiry (now_Expiry clk) (ttl p)\<rparr>"
    if "cacheable r \<and> att = Replied status header body \<and> 200 \<le> status \<and> status \<le> 299"
    using that by (simp add: ServeHTTP_cache stored_def)
  show "fst (ServeHTTP F p c NewWriter r clk att) =
          Inr \<lparr>w_Header = Header_Set (Header_Set (CopyHeadersForClient [] header)
                              ''X-Served-By'' ''Aegis'') ''X-Cache'' ''PASS'',
               w_Code = 404, w_Body = body\<rparr>"
    if "cacheable r \<and> att = Replied 404 header body"
    using that by (simp add: forward_response NewWriter_def)
  show "Mapping.lookup (data (snd (ServeHTTP F p c NewWriter r clk att))) (cacheKey p r)
            = Mapping.lookup (data c) (cacheKey p r)"
    if "cacheable r \<and> att = Replied 404 header body"
    using that by (simp add: ServeHTTP_cache)
qed

lemma sample_facts:
  "cacheable request3" "\<not> cacheable post0"
  by code_simp+

theorem ServeHTTP_store_frame_witness:
  "\<not> cacheable post0 \<and> cacheable request3
   \<and> snd (ServeHTTP stamp proxy0 New_Cache NewWriter post0 clock1 upstream_ok) = New_Cache
   \<and> snd (ServeHTTP stamp proxy0 cache1 NewWriter request3 clock2 (Replied 404 [] ''nope'')) = cache1
   \<and> snd (ServeHTTP stamp proxy0 cache1 NewWriter request3 clock2 (TransportError ''timeout'')) = cache1
   \<and> snd (ServeHTTP stamp proxy0 New_Cache NewWriter request3 clock1 (Replied 200 [] ''ok'')) =
        Set New_Cache (cacheKey proxy0 request3)
          \<lparr>Status = 200, Header = CloneHeaderSanitized [], Body = ''ok'',
           SavedAt = now_Saved clock1, ExpireAt = ZeroOrExpiry (now_Expiry clock1) (ttl proxy0)\<rparr>
   \<and> fst (ServeHTTP stamp proxy0 New_Cache NewWriter request3 clock2 (Replied 404 [] ''nope'')) =
        Inr \<lparr>w_Header = Header_Set (Header_Set (CopyHeadersForClient [] [])
                              ''X-Served-By'' ''Aegis'') ''X-Cache'' ''PASS'',
               w_Code = 404, w_Body = ''nope''\<rparr>"
proof -
  note f = sample_facts
  have n: "\<not> (200 \<le> (404 :: int) \<and> (404 :: int) \<le> 299)" by simp
  have y: "200 \<le> (200 :: int) \<and> (200 :: int) \<le> 299" by simp
  from f(2) ServeHTTP_store_frame [of post0 stamp proxy0 New_Cache NewWriter clock1 upstream_ok]
  have a: "snd (ServeHTTP stamp proxy0 New_Cache NewWriter post0 clock1 upstream_ok) = New_Cache"
    by blast
  from n ServeHTTP_store_frame [of request3 stamp proxy0 cache1 NewWriter clock2
      "Replied 404 [] ''nope''" 404 "[]" "''nope''"]
  have b: "snd (ServeHTTP stamp proxy0 cache1 NewWriter request3 clock2 (Replied 404 [] ''nope'')) = cache1"
    by blast
  from ServeHTTP_store_frame [of request3 stamp proxy0 cache1 NewWriter clock2
      "TransportError ''timeout''" _ _ _ "''timeout''"]
  have c: "snd (ServeHTTP stamp proxy0 cache1 NewWriter request3 clock2 (TransportError ''timeout'')) = cache1"
    by blast
  from f(1) y ServeHTTP_store_frame [of request3 stamp proxy0 New_Cache NewWriter clock1
      "Replied 200 [] ''ok''" 200 "[]" "''ok''"]
  have d: "snd (ServeHTTP stamp proxy0 New_Cache NewWriter request3 clock1 (Replied 200 [] ''ok'')) =
        Set New_Cache (cacheKey proxy0 request3)
          \<lparr>Status = 200, Header = CloneHeaderSanitized [], Body = ''ok'',
           SavedAt = now_Saved clock1, ExpireAt = ZeroOrExpiry (now_Expiry clock1) (ttl proxy0)\<rparr>"
    by blast
  from f(1) ServeHTTP_store_frame [of request3 stamp proxy0 New_Cache NewWriter clock2
      "Replied 404 [] ''nope''" 404 "[]" "''nope''"]
  have e: "fst (ServeHTTP stamp proxy0 New_Cache NewWriter request3 clock2 (Replied 404 [] ''nope'')) =
        Inr \<lparr>w_Header = Header_Set (Header_Set (CopyHeadersForClient [] [])
                              ''X-Served-By'' ''Aegis'') ''X-Cache'' ''PASS'',
               w_Code = 404, w_Body = ''nope''\<rparr>"
    by blast
  from f a b c d e show ?thesis by blast
qed

lemma error_header_names:
  "CanonicalHeaderKey ''Content-Type'' = ''Content-Type''"
  "CanonicalHeaderKey ''X-Content-Type-Options'' = ''X-Content-Type-Options''"
  "CanonicalHeaderKey ''X-Served-By'' \<noteq> ''Content-Type''"
  "CanonicalHeaderKey ''X-Served-By'' \<noteq> ''X-Content-Type-Options''"
  "CanonicalHeaderKey ''X-Cache'' \<noteq> ''Content-Type''"
  "CanonicalHeaderKey ''X-Cache'' \<noteq> ''X-Content-Type-Options''"
  by code_simp+

lemma http_Error_NewWriter:
  "http_Error NewWriter msg 502 =
     Inr \<lparr>w_Header = [(''Content-Type'', [''text/plain; charset=utf-8'']),
                       (''X-Content-Type-Options'', [''nosniff''])],
          w_Code = 502, w_Body = msg @ [CHR 0x0A]\<rparr>"
  by (simp add: http_Error_502 NewWriter_def Header_Del_def Header_Set_def error_header_names)

lemma forward_NewWriter:
  assumes "\<not> (status \<ge> 500 \<and> cacheable r)" "100 \<le> status" "status \<le> 999"
  shows "fst (ServeHTTP F p c NewWriter r clk (Replied status header body)) =
     Inr \<lparr>w_Header =
                  Header_Set
                    (Header_Set (CopyHeadersForClient [] header) ''X-Served-By'' ''Aegis'')
                    ''X-Cache''
                    (if cacheable r \<and> 200 \<le> status \<and> status \<le> 299 then ''MISS''
                     else if cacheable r then ''PASS'' else ''BYPASS''),
               w_Code = status, w_Body = body\<rparr>"
  by (simp add: forward_response [OF assms] NewWriter_def)

lemma ServeHTTP_ignores_cache:
  assumes "\<not> cacheable r"
  shows "fst (ServeHTTP F p c w r clk att) = fst (ServeHTTP F p c' w r clk att)"
proof (cases att)
  case (Replied status header body)
  from assms have "\<not> (status \<ge> 500 \<and> cacheable r)" by simp
  then show ?thesis unfolding Replied by (simp add: ServeHTTP_forward assms)
qed (simp_all add: ServeHTTP_error assms)

text \<open>
  C3 (as amended). For a request that is not cacheable: a build, transport or body-read
  error is answered with a synthesized 502 whose body is \<^verbatim>\<open>Bad Gateway: \<close> and the
  error; an upstream response, also one with status 500 or more, is forwarded with its
  own status and body and \<^verbatim>\<open>X-Cache: BYPASS\<close>; the response does not depend on the
  cache, and the cache is unchanged.
\<close>

theorem ServeHTTP_noncacheable:
  "\<not> cacheable r \<longrightarrow>
     (att = BuildError err \<or> att = TransportError err \<or> att = ReadError err \<longrightarrow>
        ServeHTTP F p c NewWriter r clk att =
          (Inr \<lparr>w_Header = [(''Content-Type'', [''text/plain; charset=utf-8'']),
                             (''X-Content-Type-Options'', [''nosniff''])],
                w_Code = 502, w_Body = ''Bad Gateway: '' @ err @ [CHR 0x0A]\<rparr>, c))
     \<and> (att = Replied status header body \<and> 100 \<le> status \<and> status \<le> 999 \<longrightarrow>
          ServeHTTP F p c NewWriter r clk att =
            (Inr \<lparr>w_Header = Header_Set (Header_Set (CopyHeadersForClient [] header)
                                  ''X-Served-By'' ''Aegis'') ''X-Cache'' ''BYPASS'',
                  w_Code = status, w_Body = body\<rparr>, c))
     \<and> fst (ServeHTTP F p c w r clk att) = fst (ServeHTTP F p c' w r clk att)
     \<and> snd (ServeHTTP F p c w r clk att) = c"
proof (intro impI conjI)
  assume n: "\<not> cacheable r"
  show "ServeHTTP F p c NewWriter r clk att =
          (Inr \<lparr>w_Header = [(''Content-Type'', [''text/plain; charset=utf-8'']),
                             (''X-Content-Type-Options'', [''nosniff''])],
                w_Code = 502, w_Body = ''Bad Gateway: '' @ err @ [CHR 0x0A]\<rparr>, c)"
    if "att = BuildError err \<or> att = TransportError err \<or> att = ReadError err"
    using ServeHTTP_error [OF n that] by (simp add: http_Error_NewWriter)
  show "ServeHTTP F p c NewWriter r clk att =
            (Inr \<lparr>w_Header = Header_Set (Header_Set (CopyHeadersForClient [] header)
                                  ''X-Served-By'' ''Aegis'') ''X-Cache'' ''BYPASS'',
                  w_Code = status, w_Body = body\<rparr>, c)"
    if "att = Replied status header body \<and> 100 \<le> status \<and> status \<le> 999"
  proof -
    from n have m: "\<not> (status \<ge> 500 \<and> cacheable r)" by simp
    from that n have "fst (ServeHTTP F p c NewWriter r clk att) =
        Inr \<lparr>w_Header = Header_Set (Header_Set (CopyHeadersForClient [] header)
                                  ''X-Served-By'' ''Aegis'') ''X-Cache'' ''BYPASS'',
                  w_Code = status, w_Body = body\<rparr>"
      by (simp add: forward_NewWriter [OF m])
    moreover from n have "snd (ServeHTTP F p c NewWriter r clk att) = c"
      by (simp add: ServeHTTP_cache split: attempt.splits)
    ultimately show ?thesis by (simp add: prod_eq_iff)
  qed
  show "fst (ServeHTTP F p c w r clk att) = fst (ServeHTTP F p c' w r clk att)"
    by (rule ServeHTTP_ignores_cache [OF n])
  show "snd (ServeHTTP F p c w r clk att) = c"
    using n by (simp add: ServeHTTP_cache split: attempt.splits)
qed

theorem ServeHTTP_noncacheable_witness:
  "\<not> cacheable post0
   \<and> ServeHTTP stamp proxy0 cache1 NewWriter post0 clock2 (TransportError ''connection refused'') =
       (Inr \<lparr>w_Header = [(''Content-Type'', [''text/plain; charset=utf-8'']),
                          (''X-Content-Type-Options'', [''nosniff''])],
             w_Code = 502, w_Body = ''Bad Gateway: '' @ ''connection refused'' @ [CHR 0x0A]\<rparr>, cache1)
   \<and> ServeHTTP stamp proxy0 cache1 NewWriter post0 clock2 (Replied 503 [] ''down'') =
       (Inr \<lparr>w_Header = Header_Set (Header_Set (CopyHeadersForClient [] [])
                                  ''X-Served-By'' ''Aegis'') ''X-Cache'' ''BYPASS'',
             w_Code = 503, w_Body = ''down''\<rparr>, cache1)"
proof -
  note f = sample_facts(2)
  have v: "100 \<le> (503 :: int) \<and> (503 :: int) \<le> 999" by simp
  from f ServeHTTP_noncacheable [of post0 "TransportError ''connection refused''"
      "''connection refused''" stamp proxy0 cache1 clock2]
  have a: "ServeHTTP stamp proxy0 cache1 NewWriter post0 clock2 (TransportError ''connection refused'') =
       (Inr \<lparr>w_Header = [(''Content-Type'', [''text/plain; charset=utf-8'']),
                          (''X-Content-Type-Options'', [''nosniff''])],
             w_Code = 502, w_Body = ''Bad Gateway: '' @ ''connection refused'' @ [CHR 0x0A]\<rparr>, cache1)"
    by blast
  from f v ServeHTTP_noncacheable [of post0 "Replied 503 [] ''down''" _ stamp proxy0 cache1 clock2
      503 "[]" "''down''"]
  have b: "ServeHTTP stamp proxy0 cache1 NewWriter post0 clock2 (Replied 503 [] ''down'') =
       (Inr \<lparr>w_Header = Header_Set (Header_Set (CopyHeadersForClient [] [])
                                  ''X-Served-By'' ''Aegis'') ''X-Cache'' ''BYPASS'',
             w_Code = 503, w_Body = ''down''\<rparr>, cache1)"
    by blast
  from f a b show ?thesis by blast
qed

text \<open>
  C3 as stated fails: a POST whose upstream answers 503 gets that 503 with
  \<^verbatim>\<open>X-Cache: BYPASS\<close>, not a synthesized 502. The source turns a status of 500 or
  more into a failure only under \<^verbatim>\<open>&& cacheable\<close>.
\<close>

theorem ServeHTTP_noncacheable_5xx_counterexample:
  "\<not> cacheable post0
   \<and> fst (ServeHTTP stamp proxy0 New_Cache NewWriter post0 clock2 (Replied 503 [] ''down'')) =
       Inr \<lparr>w_Header = [(''X-Served-By'', [''Aegis'']), (''X-Cache'', [''BYPASS''])],
            w_Code = 503, w_Body = ''down''\<rparr>"
  by code_simp


lemma hit_annotated:
  "Header_Values (Header_Set (Header_Set (Header_Set h ''X-Served-By'' ''Aegis'')
      ''X-Cache'' ''HIT-BACKUP'') ''X-Backup-Saved-At'' t) ''X-Served-By'' = [''Aegis'']"
  "Header_Values (Header_Set (Header_Set (Header_Set h ''X-Served-By'' ''Aegis'')
      ''X-Cache'' ''HIT-BACKUP'') ''X-Backup-Saved-At'' t) ''X-Cache'' = [''HIT-BACKUP'']"
  "Header_Values (Header_Set (Header_Set (Header_Set h ''X-Served-By'' ''Aegis'')
      ''X-Cache'' ''HIT-BACKUP'') ''X-Backup-Saved-At'' t) ''X-Backup-Saved-At'' = [t]"
  using annotation_names by (simp_all add: Values_Set)

lemma hit_unannotated:
  assumes "CanonicalHeaderKey n \<noteq> CanonicalHeaderKey ''X-Served-By''"
    "CanonicalHeaderKey n \<noteq> CanonicalHeaderKey ''X-Cache''"
    "CanonicalHeaderKey n \<noteq> CanonicalHeaderKey ''X-Backup-Saved-At''"
  shows "Header_Values (Header_Set (Header_Set (Header_Set h ''X-Served-By'' ''Aegis'')
      ''X-Cache'' ''HIT-BACKUP'') ''X-Backup-Saved-At'' t) n = Header_Values h n"
  using assms by (simp add: Values_Set)





lemma cache1_facts:
  "fst (Get cache1 (cacheKey proxy0 request3) (now_Get clock2)) = (entry1, True)"
  "100 \<le> Status entry1 \<and> Status entry1 \<le> 999"
  "sanitized (Header entry1)"
  "failed (Replied 500 [] ''error'')"
  "upstream_ok = Replied 200 [(''Content-Type'', [''text/plain'']), (''Connection'', [''close''])] ''success''"
  "stamp (SavedAt entry1) = ''t=1000''"
  "\<not> snd (fst (Get New_Cache (cacheKey proxy0 request3) (now_Get clock2)))"
  "cause (Replied 500 [] ''error'') = ''upstream status 500''"
  "sint (ttl proxy0) \<le> 0 \<or> now_Get clock2 \<le> now_Expiry clock1 + sint (ttl proxy0)"
  "Header_Values (Header entry1) ''content-type'' = [''text/plain'']"
  "CanonicalHeaderKey ''content-type'' \<notin> {CanonicalHeaderKey ''X-Served-By'',
      CanonicalHeaderKey ''X-Cache'', CanonicalHeaderKey ''X-Backup-Saved-At''}"
  by code_simp+



lemma fallback_hit:
  assumes cf: "cacheable r" "failed att"
    and g: "fst (Get c (cacheKey p r) (now_Get clk)) = (e, True)"
    and v: "100 \<le> Status e" "Status e \<le> 999" and s: "sanitized (Header e)"
  shows "\<exists>w'. ServeHTTP F p c NewWriter r clk att = (Inr w', c)
          \<and> w_Code w' = Status e \<and> w_Body w' = Body e
          \<and> (\<forall>n. CanonicalHeaderKey n \<notin> {CanonicalHeaderKey ''X-Served-By'',
                    CanonicalHeaderKey ''X-Cache'', CanonicalHeaderKey ''X-Backup-Saved-At''} \<longrightarrow>
                 Header_Values (w_Header w') n = Header_Values (Header e) n)
          \<and> Header_Values (w_Header w') ''X-Served-By'' = [''Aegis'']
          \<and> Header_Values (w_Header w') ''X-Cache'' = [''HIT-BACKUP'']
          \<and> Header_Values (w_Header w') ''X-Backup-Saved-At'' = [F (SavedAt e)]"
proof -
  let ?h = "Header_Set (Header_Set (Header_Set (CopyHeadersForClient [] (Header e))
              ''X-Served-By'' ''Aegis'') ''X-Cache'' ''HIT-BACKUP'')
              ''X-Backup-Saved-At'' (F (SavedAt e))"
  let ?w = "\<lparr>w_Header = ?h, w_Code = Status e, w_Body = Body e\<rparr>"
  have "fst (ServeHTTP F p c NewWriter r clk att) = Inr ?w"
    unfolding ServeHTTP_failed [OF cf] tryServeFromCache_hit [OF g v]
    by (simp add: NewWriter_def)
  moreover have "snd (ServeHTTP F p c NewWriter r clk att) = c"
    unfolding ServeHTTP_failed [OF cf] by simp
  ultimately have run: "ServeHTTP F p c NewWriter r clk att = (Inr ?w, c)"
    by (simp add: prod_eq_iff)
  have copy: "Header_Values (CopyHeadersForClient [] (Header e)) n = Header_Values (Header e) n" for n
    by (simp add: Header_Values_def index_Copy_sanitized [OF s])
  have rest: "\<forall>n. CanonicalHeaderKey n \<notin> {CanonicalHeaderKey ''X-Served-By'',
                    CanonicalHeaderKey ''X-Cache'', CanonicalHeaderKey ''X-Backup-Saved-At''} \<longrightarrow>
                 Header_Values ?h n = Header_Values (Header e) n"
    by (simp add: hit_unannotated copy)
  from run rest show ?thesis
    by (intro exI [of _ ?w]) (simp add: hit_annotated)
qed

lemma fallback_miss:
  assumes cf: "cacheable r" "failed att"
    and g: "\<not> snd (fst (Get c (cacheKey p r) (now_Get clk)))"
  shows "ServeHTTP F p c NewWriter r clk att =
      (Inr \<lparr>w_Header = [(''Content-Type'', [''text/plain; charset=utf-8'']),
                         (''X-Content-Type-Options'', [''nosniff''])],
            w_Code = 502,
            w_Body = ''Bad Gateway (no cached backup): '' @ cause att @ [CHR 0x0A]\<rparr>, c)"
proof -
  have "fst (ServeHTTP F p c NewWriter r clk att) =
      http_Error NewWriter (''Bad Gateway (no cached backup): '' @ cause att) 502"
    unfolding ServeHTTP_failed [OF cf] by (rule tryServeFromCache_miss [OF g])
  moreover have "snd (ServeHTTP F p c NewWriter r clk att) = c"
    unfolding ServeHTTP_failed [OF cf] by simp
  ultimately show ?thesis by (simp add: prod_eq_iff http_Error_NewWriter)
qed

lemma stored_found:
  assumes "sint (ttl p) \<le> 0 \<or> now \<le> now_Expiry clk0 + sint (ttl p)"
  shows "fst (Get (Set c key (stored p clk0 status header body)) key now)
      = (stored p clk0 status header body, True)"
  using assms
  by (auto simp: Get_Set_same stored_def ZeroOrExpiry_def IsZero_def After_def Add_def)

lemma failover:
  assumes cf: "cacheable r" "failed att" and c': "cacheable r'" and k: "cacheKey p r' = cacheKey p r"
    and t: "sint (ttl p) \<le> 0 \<or> now_Get clk \<le> now_Expiry clk0 + sint (ttl p)"
  shows "\<exists>w'. fst (ServeHTTP F p (snd (ServeHTTP F p c0 w0 r' clk0 (Replied 200 header0 body0)))
                    NewWriter r clk att) = Inr w'
          \<and> w_Code w' = 200 \<and> w_Body w' = body0
          \<and> Header_Values (w_Header w') ''X-Cache'' = [''HIT-BACKUP'']"
proof -
  let ?e = "stored p clk0 200 header0 body0"
  let ?c1 = "snd (ServeHTTP F p c0 w0 r' clk0 (Replied 200 header0 body0))"
  from c' k have c1: "?c1 = Set c0 (cacheKey p r) ?e"
    by (simp add: ServeHTTP_cache)
  have g: "fst (Get ?c1 (cacheKey p r) (now_Get clk)) = (?e, True)"
    unfolding c1 by (rule stored_found [OF t])
  have v: "100 \<le> Status ?e" "Status ?e \<le> 999" by (simp_all add: stored_def)
  from fallback_hit [OF cf g v sanitized_stored, of F]
  obtain w' where "ServeHTTP F p ?c1 NewWriter r clk att = (Inr w', ?c1)"
    "w_Code w' = Status ?e" "w_Body w' = Body ?e"
    "Header_Values (w_Header w') ''X-Cache'' = [''HIT-BACKUP'']"
    by blast
  then show ?thesis by (intro exI [of _ w']) (simp add: stored_def)
qed

text \<open>
  The handler only ever stores entries with a status in 200..299 and sanitized headers,
  so every entry of a cache that only the handler writes to has both.
\<close>

lemma ServeHTTP_stores_sanitized:
  assumes "Mapping.lookup (data (snd (ServeHTTP F p c w r clk att))) k = Some e"
  shows "Mapping.lookup (data c) k = Some e \<or>
     (200 \<le> Status e \<and> Status e \<le> 299 \<and> sanitized (Header e))"
proof (cases "snd (ServeHTTP F p c w r clk att) = c")
  case True
  with assms show ?thesis by simp
next
  case False
  then obtain status header body where
    a: "snd (ServeHTTP F p c w r clk att) = Set c (cacheKey p r) (stored p clk status header body)"
    and v: "200 \<le> status" "status \<le> 299"
    by (auto simp: ServeHTTP_cache split: attempt.splits if_splits)
  show ?thesis
  proof (cases "k = cacheKey p r")
    case True
    with assms a have "e = stored p clk status header body" by (simp add: Set_def)
    with v show ?thesis by (simp add: sanitized_stored) (simp add: stored_def)
  next
    case False
    with assms a show ?thesis by (simp add: Set_def)
  qed
qed

text \<open>
  C1. For a cacheable request whose upstream attempt failed (build, transport or
  body-read error, or a status of 500 or more): when the lookup of the cache key finds an
  entry (one the handler stored: valid status, sanitized headers), the response has the
  entry's status and body, the entry's header values under every name other than the
  three annotation headers, \<^verbatim>\<open>X-Served-By: Aegis\<close>, \<^verbatim>\<open>X-Cache: HIT-BACKUP\<close> and
  the entry's save time in \<^verbatim>\<open>X-Backup-Saved-At\<close>; when it finds none, the response
  is a 502 whose body names the cause. In both cases the cache is unchanged. In
  particular, after a cacheable request stored a 200 response, a request with the same
  key whose attempt fails while the entry is unexpired gets status 200, the first body
  and \<^verbatim>\<open>X-Cache: HIT-BACKUP\<close>.
\<close>

theorem ServeHTTP_fallback:
  "cacheable r \<and> failed att \<longrightarrow>
     (fst (Get c (cacheKey p r) (now_Get clk)) = (e, True)
        \<and> 100 \<le> Status e \<and> Status e \<le> 999 \<and> sanitized (Header e) \<longrightarrow>
        (\<exists>w'. ServeHTTP F p c NewWriter r clk att = (Inr w', c)
          \<and> w_Code w' = Status e \<and> w_Body w' = Body e
          \<and> (\<forall>n. CanonicalHeaderKey n \<notin> {CanonicalHeaderKey ''X-Served-By'',
                    CanonicalHeaderKey ''X-Cache'', CanonicalHeaderKey ''X-Backup-Saved-At''} \<longrightarrow>
                 Header_Values (w_Header w') n = Header_Values (Header e) n)
          \<and> Header_Values (w_Header w') ''X-Served-By'' = [''Aegis'']
          \<and> Header_Values (w_Header w') ''X-Cache'' = [''HIT-BACKUP'']
          \<and> Header_Values (w_Header w') ''X-Backup-Saved-At'' = [F (SavedAt e)]))
     \<and> (\<not> snd (fst (Get c (cacheKey p r) (now_Get clk))) \<longrightarrow>
          ServeHTTP F p c NewWriter r clk att =
            (Inr \<lparr>w_Header = [(''Content-Type'', [''text/plain; charset=utf-8'']),
                               (''X-Content-Type-Options'', [''nosniff''])],
                  w_Code = 502,
                  w_Body = ''Bad Gateway (no cached backup): '' @ cause att @ [CHR 0x0A]\<rparr>, c))
     \<and> (cacheable r' \<and> cacheKey p r' = cacheKey p r
          \<and> (sint (ttl p) \<le> 0 \<or> now_Get clk \<le> now_Expiry clk0 + sint (ttl p)) \<longrightarrow>
          (\<exists>w'. fst (ServeHTTP F p (snd (ServeHTTP F p c0 w0 r' clk0 (Replied 200 header0 body0)))
                    NewWriter r clk att) = Inr w'
             \<and> w_Code w' = 200 \<and> w_Body w' = body0
             \<and> Header_Values (w_Header w') ''X-Cache'' = [''HIT-BACKUP'']))"
proof (intro impI conjI)
  assume "cacheable r \<and> failed att"
  then have cf: "cacheable r" "failed att" by simp_all
  show "\<exists>w'. ServeHTTP F p c NewWriter r clk att = (Inr w', c)
          \<and> w_Code w' = Status e \<and> w_Body w' = Body e
          \<and> (\<forall>n. CanonicalHeaderKey n \<notin> {CanonicalHeaderKey ''X-Served-By'',
                    CanonicalHeaderKey ''X-Cache'', CanonicalHeaderKey ''X-Backup-Saved-At''} \<longrightarrow>
                 Header_Values (w_Header w') n = Header_Values (Header e) n)
          \<and> Header_Values (w_Header w') ''X-Served-By'' = [''Aegis'']
          \<and> Header_Values (w_Header w') ''X-Cache'' = [''HIT-BACKUP'']
          \<and> Header_Values (w_Header w') ''X-Backup-Saved-At'' = [F (SavedAt e)]"
    if "fst (Get c (cacheKey p r) (now_Get clk)) = (e, True)
        \<and> 100 \<le> Status e \<and> Status e \<le> 999 \<and> sanitized (Header e)"
    using that by (intro fallback_hit [OF cf]) simp_all
  show "ServeHTTP F p c NewWriter r clk att =
            (Inr \<lparr>w_Header = [(''Content-Type'', [''text/plain; charset=utf-8'']),
                               (''X-Content-Type-Options'', [''nosniff''])],
                  w_Code = 502,
                  w_Body = ''Bad Gateway (no cached backup): '' @ cause att @ [CHR 0x0A]\<rparr>, c)"
    if "\<not> snd (fst (Get c (cacheKey p r) (now_Get clk)))"
    using that by (rule fallback_miss [OF cf])
  show "\<exists>w'. fst (ServeHTTP F p (snd (ServeHTTP F p c0 w0 r' clk0 (Replied 200 header0 body0)))
                    NewWriter r clk att) = Inr w'
             \<and> w_Code w' = 200 \<and> w_Body w' = body0
             \<and> Header_Values (w_Header w') ''X-Cache'' = [''HIT-BACKUP'']"
    if "cacheable r' \<and> cacheKey p r' = cacheKey p r
          \<and> (sint (ttl p) \<le> 0 \<or> now_Get clk \<le> now_Expiry clk0 + sint (ttl p))"
    using that by (intro failover [OF cf]) simp_all
qed

theorem ServeHTTP_fallback_witness:
  "cacheable request3 \<and> failed (Replied 500 [] ''error'')
   \<and> fst (Get cache1 (cacheKey proxy0 request3) (now_Get clock2)) = (entry1, True)
   \<and> 100 \<le> Status entry1 \<and> Status entry1 \<le> 999 \<and> sanitized (Header entry1)
   \<and> \<not> snd (fst (Get New_Cache (cacheKey proxy0 request3) (now_Get clock2)))
   \<and> (sint (ttl proxy0) \<le> 0 \<or> now_Get clock2 \<le> now_Expiry clock1 + sint (ttl proxy0))
   \<and> CanonicalHeaderKey ''content-type'' \<notin> {CanonicalHeaderKey ''X-Served-By'',
        CanonicalHeaderKey ''X-Cache'', CanonicalHeaderKey ''X-Backup-Saved-At''}
   \<and> snd (ServeHTTP stamp proxy0 cache1 NewWriter request3 clock2 (Replied 500 [] ''error'')) = cache1
   \<and> w_Code (served (fst (ServeHTTP stamp proxy0 cache1 NewWriter request3 clock2
        (Replied 500 [] ''error'')))) = 200
   \<and> w_Body (served (fst (ServeHTTP stamp proxy0 cache1 NewWriter request3 clock2
        (Replied 500 [] ''error'')))) = ''success''
   \<and> Header_Values (w_Header (served (fst (ServeHTTP stamp proxy0 cache1 NewWriter request3 clock2
        (Replied 500 [] ''error''))))) ''content-type'' = [''text/plain'']
   \<and> Header_Values (w_Header (served (fst (ServeHTTP stamp proxy0 cache1 NewWriter request3 clock2
        (Replied 500 [] ''error''))))) ''X-Cache'' = [''HIT-BACKUP'']
   \<and> ServeHTTP stamp proxy0 New_Cache NewWriter request3 clock2 (Replied 500 [] ''error'') =
        (Inr \<lparr>w_Header = [(''Content-Type'', [''text/plain; charset=utf-8'']),
                           (''X-Content-Type-Options'', [''nosniff''])],
              w_Code = 502,
              w_Body = ''Bad Gateway (no cached backup): '' @ ''upstream status 500'' @ [CHR 0x0A]\<rparr>,
         New_Cache)
   \<and> w_Body (served (fst (ServeHTTP stamp proxy0
        (snd (ServeHTTP stamp proxy0 New_Cache NewWriter request3 clock1 (Replied 200 [] ''first'')))
        NewWriter request3 clock2 (Replied 500 [] ''error'')))) = ''first''"
proof -
  note f = cache1_facts sample_facts
  let ?run = "ServeHTTP stamp proxy0 cache1 NewWriter request3 clock2 (Replied 500 [] ''error'')"
  note t = ServeHTTP_fallback [of request3 "Replied 500 [] ''error''" _ proxy0 clock2 _ stamp
      request3 clock1 New_Cache NewWriter "[]" "''first''"]
  from f(1,2,3,4,12) t [of cache1 entry1]
  obtain w' where w': "?run = (Inr w', cache1)" "w_Code w' = Status entry1" "w_Body w' = Body entry1"
    "\<forall>n. CanonicalHeaderKey n \<notin> {CanonicalHeaderKey ''X-Served-By'',
          CanonicalHeaderKey ''X-Cache'', CanonicalHeaderKey ''X-Backup-Saved-At''} \<longrightarrow>
        Header_Values (w_Header w') n = Header_Values (Header entry1) n"
    "Header_Values (w_Header w') ''X-Cache'' = [''HIT-BACKUP'']"
    by blast
  from w'(4) f(10,11) have ct: "Header_Values (w_Header w') ''content-type'' = [''text/plain'']"
    by metis
  from w' ct have a: "snd ?run = cache1" "w_Code (served (fst ?run)) = 200"
    "w_Body (served (fst ?run)) = ''success''"
    "Header_Values (w_Header (served (fst ?run))) ''content-type'' = [''text/plain'']"
    "Header_Values (w_Header (served (fst ?run))) ''X-Cache'' = [''HIT-BACKUP'']"
    by (simp_all add: served_def entry1_def)
  from f(4,7,12) t [of New_Cache entry1]
  have "ServeHTTP stamp proxy0 New_Cache NewWriter request3 clock2 (Replied 500 [] ''error'') =
        (Inr \<lparr>w_Header = [(''Content-Type'', [''text/plain; charset=utf-8'']),
                           (''X-Content-Type-Options'', [''nosniff''])],
              w_Code = 502,
              w_Body = ''Bad Gateway (no cached backup): '' @ cause (Replied 500 [] ''error'')
                  @ [CHR 0x0A]\<rparr>,
         New_Cache)"
    by blast
  then have b: "ServeHTTP stamp proxy0 New_Cache NewWriter request3 clock2 (Replied 500 [] ''error'') =
        (Inr \<lparr>w_Header = [(''Content-Type'', [''text/plain; charset=utf-8'']),
                           (''X-Content-Type-Options'', [''nosniff''])],
              w_Code = 502,
              w_Body = ''Bad Gateway (no cached backup): '' @ ''upstream status 500'' @ [CHR 0x0A]\<rparr>,
         New_Cache)"
    by (simp only: f(8))
  from f(4,9,12) t [of cache1 entry1]
  obtain w2 where "fst (ServeHTTP stamp proxy0
        (snd (ServeHTTP stamp proxy0 New_Cache NewWriter request3 clock1 (Replied 200 [] ''first'')))
        NewWriter request3 clock2 (Replied 500 [] ''error'')) = Inr w2" "w_Body w2 = ''first''"
    by blast
  then have c: "w_Body (served (fst (ServeHTTP stamp proxy0
        (snd (ServeHTTP stamp proxy0 New_Cache NewWriter request3 clock1 (Replied 200 [] ''first'')))
        NewWriter request3 clock2 (Replied 500 [] ''error'')))) = ''first''"
    by (simp add: served_def)
  from f(1,2,3,4,7,9,11,12) a b c show ?thesis by blast
qed

section \<open>Expiry of stored entries\<close>

lemma expiry_window:
  assumes "0 < sint dur" and "0 \<le> SavedAt v" and "SavedAt v \<le> t"
    and "ExpireAt v = ZeroOrExpiry t dur"
  shows "now \<le> SavedAt v + sint dur \<Longrightarrow> fst (Get (Set c key v) key now) = (v, True)"
    and "t + sint dur < now \<Longrightarrow> \<not> snd (fst (Get (Set c key v) key now))"
  using assms
  by (auto simp: Get_Set_same ZeroOrExpiry_def Add_def After_def IsZero_def time_zero_def)

lemma stored_window:
  assumes r: "cacheable r" "200 \<le> status" "status \<le> 299"
    and t: "0 < sint (ttl p)" "0 \<le> now_Saved clk" "now_Saved clk \<le> now_Expiry clk"
  shows "now \<le> now_Saved clk + sint (ttl p) \<Longrightarrow>
      fst (Get (snd (ServeHTTP F p c w r clk (Replied status header body))) (cacheKey p r) now)
        = (stored p clk status header body, True)"
    and "now_Expiry clk + sint (ttl p) < now \<Longrightarrow>
      \<not> snd (fst (Get (snd (ServeHTTP F p c w r clk (Replied status header body))) (cacheKey p r) now))"
proof -
  let ?e = "stored p clk status header body"
  from r have c1: "snd (ServeHTTP F p c w r clk (Replied status header body))
      = Set c (cacheKey p r) ?e"
    by (simp add: ServeHTTP_cache)
  have e: "0 \<le> SavedAt ?e" "SavedAt ?e \<le> now_Expiry clk"
    "ExpireAt ?e = ZeroOrExpiry (now_Expiry clk) (ttl p)" "SavedAt ?e = now_Saved clk"
    using t by (simp_all add: stored_def)
  show "now \<le> now_Saved clk + sint (ttl p) \<Longrightarrow>
      fst (Get (snd (ServeHTTP F p c w r clk (Replied status header body))) (cacheKey p r) now)
        = (?e, True)"
    unfolding c1 using expiry_window(1) [OF t(1) e(1,2,3), of now c "cacheKey p r"] e(4) by simp
  show "now_Expiry clk + sint (ttl p) < now \<Longrightarrow>
      \<not> snd (fst (Get (snd (ServeHTTP F p c w r clk (Replied status header body))) (cacheKey p r) now))"
    unfolding c1 using expiry_window(2) [OF t(1) e(1,2,3), of now c "cacheKey p r"] by simp
qed

text \<open>
  C4 (as amended). \<^verbatim>\<open>Get\<close> reports \<open>found\<close> exactly when the key is present and its
  entry has a zero \<open>ExpireAt\<close> or \<open>now \<le> ExpireAt\<close>: the source tests
  \<^verbatim>\<open>time.Now().After(v.ExpireAt)\<close>, so the expiry instant itself still counts as fresh.
  When found, the value returned is the stored one, and it is never an entry whose expiry
  instant has passed. The expiry of an entry with a positive TTL is computed from a clock
  reading \<open>t\<close> taken no earlier than \<open>SavedAt\<close> (the handler reads the clock once for
  \<open>SavedAt\<close> and again inside \<^verbatim>\<open>ZeroOrExpiry\<close>): such an entry is retrievable at
  every instant up to and including \<open>SavedAt + TTL\<close>, and not retrievable at any instant
  after \<open>t + TTL\<close>. So it is for the entry a handler run stores, with \<open>t\<close> the reading
  inside \<^verbatim>\<open>ZeroOrExpiry\<close>.
\<close>

theorem Get_found_iff:
  "(snd (fst (Get c key now)) \<longleftrightarrow>
      (\<exists>e. Mapping.lookup (data c) key = Some e \<and> (IsZero (ExpireAt e) \<or> now \<le> ExpireAt e)))
   \<and> (snd (fst (Get c key now)) \<longrightarrow>
        Mapping.lookup (data c) key = Some (fst (fst (Get c key now))))
   \<and> (snd (fst (Get c key now)) \<longrightarrow>
        \<not> (\<not> IsZero (ExpireAt (fst (fst (Get c key now)))) \<and> ExpireAt (fst (fst (Get c key now))) < now))
   \<and> (0 < sint dur \<and> 0 \<le> SavedAt v \<and> SavedAt v \<le> t \<and> ExpireAt v = ZeroOrExpiry t dur \<longrightarrow>
        (now \<le> SavedAt v + sint dur \<longrightarrow> fst (Get (Set c key v) key now) = (v, True)) \<and>
        (t + sint dur < now \<longrightarrow> \<not> snd (fst (Get (Set c key v) key now))))
   \<and> (cacheable r \<and> 200 \<le> status \<and> status \<le> 299
        \<and> 0 < sint (ttl p) \<and> 0 \<le> now_Saved clk \<and> now_Saved clk \<le> now_Expiry clk \<longrightarrow>
        (now \<le> now_Saved clk + sint (ttl p) \<longrightarrow>
           fst (Get (snd (ServeHTTP F p c w r clk (Replied status header body))) (cacheKey p r) now)
             = (\<lparr>Status = status, Header = CloneHeaderSanitized header, Body = body,
                 SavedAt = now_Saved clk,
                 ExpireAt = ZeroOrExpiry (now_Expiry clk) (ttl p)\<rparr>, True)) \<and>
        (now_Expiry clk + sint (ttl p) < now \<longrightarrow>
           \<not> snd (fst (Get (snd (ServeHTTP F p c w r clk (Replied status header body)))
                          (cacheKey p r) now))))"
proof -
  have found: "snd (fst (Get c key now)) \<longleftrightarrow>
      (\<exists>e. Mapping.lookup (data c) key = Some e \<and> (IsZero (ExpireAt e) \<or> now \<le> ExpireAt e))"
    by (auto simp: Get_def After_def split: option.splits)
  have same: "snd (fst (Get c key now)) \<longrightarrow>
        Mapping.lookup (data c) key = Some (fst (fst (Get c key now)))"
    by (auto simp: Get_def split: option.splits if_splits)
  have fresh: "snd (fst (Get c key now)) \<longrightarrow>
        \<not> (\<not> IsZero (ExpireAt (fst (fst (Get c key now)))) \<and> ExpireAt (fst (fst (Get c key now))) < now)"
    by (auto simp: Get_def After_def split: option.splits if_splits)
  have pos: "0 < sint dur \<and> 0 \<le> SavedAt v \<and> SavedAt v \<le> t \<and> ExpireAt v = ZeroOrExpiry t dur \<longrightarrow>
        (now \<le> SavedAt v + sint dur \<longrightarrow> fst (Get (Set c key v) key now) = (v, True)) \<and>
        (t + sint dur < now \<longrightarrow> \<not> snd (fst (Get (Set c key v) key now)))"
    using expiry_window [of dur v t now c key] by blast
  have handler: "cacheable r \<and> 200 \<le> status \<and> status \<le> 299
        \<and> 0 < sint (ttl p) \<and> 0 \<le> now_Saved clk \<and> now_Saved clk \<le> now_Expiry clk \<longrightarrow>
        (now \<le> now_Saved clk + sint (ttl p) \<longrightarrow>
           fst (Get (snd (ServeHTTP F p c w r clk (Replied status header body))) (cacheKey p r) now)
             = (\<lparr>Status = status, Header = CloneHeaderSanitized header, Body = body,
                 SavedAt = now_Saved clk,
                 ExpireAt = ZeroOrExpiry (now_Expiry clk) (ttl p)\<rparr>, True)) \<and>
        (now_Expiry clk + sint (ttl p) < now \<longrightarrow>
           \<not> snd (fst (Get (snd (ServeHTTP F p c w r clk (Replied status header body)))
                          (cacheKey p r) now)))"
    using stored_window [of r status p clk now F c w header body]
    unfolding stored_def by blast
  from found same fresh pos handler show ?thesis by blast
qed

lemma window_facts:
  "0 < sint (100 :: Duration) \<and> 0 \<le> SavedAt entry0 \<and> SavedAt entry0 \<le> 1000
     \<and> ExpireAt entry0 = ZeroOrExpiry 1000 100"
  "1050 \<le> SavedAt entry0 + sint (100 :: Duration)"
  "1000 + sint (100 :: Duration) < 1150"
  "cacheable request3 \<and> 200 \<le> (200 :: int) \<and> (200 :: int) \<le> 299
     \<and> 0 < sint (ttl proxy0) \<and> 0 \<le> now_Saved clock1 \<and> now_Saved clock1 \<le> now_Expiry clock1"
  "1100 \<le> now_Saved clock1 + sint (ttl proxy0)"
  "now_Expiry clock1 + sint (ttl proxy0) < 1102"
  "cache1 = snd (ServeHTTP stamp proxy0 New_Cache NewWriter request3 clock1
      (Replied 200 [(''Content-Type'', [''text/plain'']), (''Connection'', [''close''])] ''success''))"
  "\<lparr>Status = 200,
     Header = CloneHeaderSanitized [(''Content-Type'', [''text/plain'']), (''Connection'', [''close''])],
     Body = ''success'', SavedAt = now_Saved clock1,
     ExpireAt = ZeroOrExpiry (now_Expiry clock1) (ttl proxy0)\<rparr> = entry1"
  by code_simp+

theorem Get_found_iff_witness:
  "0 < sint (100 :: Duration) \<and> 0 \<le> SavedAt entry0 \<and> SavedAt entry0 \<le> 1000
   \<and> ExpireAt entry0 = ZeroOrExpiry 1000 100
   \<and> 1050 \<le> SavedAt entry0 + sint (100 :: Duration)
   \<and> 1000 + sint (100 :: Duration) < 1150
   \<and> fst (Get (Set New_Cache ''GET /test?'' entry0) ''GET /test?'' 1050) = (entry0, True)
   \<and> \<not> snd (fst (Get (Set New_Cache ''GET /test?'' entry0) ''GET /test?'' 1150))
   \<and> cacheable request3 \<and> 0 < sint (ttl proxy0)
   \<and> 0 \<le> now_Saved clock1 \<and> now_Saved clock1 \<le> now_Expiry clock1
   \<and> 1100 \<le> now_Saved clock1 + sint (ttl proxy0)
   \<and> now_Expiry clock1 + sint (ttl proxy0) < 1102
   \<and> fst (Get cache1 (cacheKey proxy0 request3) 1100) = (entry1, True)
   \<and> \<not> snd (fst (Get cache1 (cacheKey proxy0 request3) 1102))"
proof -
  note f = window_facts
  let ?hdr = "[(''Content-Type'', [''text/plain'']), (''Connection'', [''close''])]"
  from f(1,2) Get_found_iff [where c = New_Cache and key = "''GET /test?''" and now = 1050
      and dur = 100 and v = entry0 and t = 1000 and r = request3 and status = 200 and p = proxy0
      and clk = clock1 and F = stamp and w = NewWriter and header = ?hdr and body = "''success''"]
  have a: "fst (Get (Set New_Cache ''GET /test?'' entry0) ''GET /test?'' 1050) = (entry0, True)"
    by blast
  from f(1,3) Get_found_iff [where c = New_Cache and key = "''GET /test?''" and now = 1150
      and dur = 100 and v = entry0 and t = 1000 and r = request3 and status = 200 and p = proxy0
      and clk = clock1 and F = stamp and w = NewWriter and header = ?hdr and body = "''success''"]
  have b: "\<not> snd (fst (Get (Set New_Cache ''GET /test?'' entry0) ''GET /test?'' 1150))"
    by blast
  from f(4,5) Get_found_iff [where c = New_Cache and key = "''GET /test?''" and now = 1100
      and dur = 100 and v = entry0 and t = 1000 and r = request3 and status = 200 and p = proxy0
      and clk = clock1 and F = stamp and w = NewWriter and header = ?hdr and body = "''success''"]
  have "fst (Get (snd (ServeHTTP stamp proxy0 New_Cache NewWriter request3 clock1
      (Replied 200 ?hdr ''success''))) (cacheKey proxy0 request3) 1100)
        = (\<lparr>Status = 200, Header = CloneHeaderSanitized ?hdr, Body = ''success'',
             SavedAt = now_Saved clock1,
             ExpireAt = ZeroOrExpiry (now_Expiry clock1) (ttl proxy0)\<rparr>, True)"
    by blast
  then have c: "fst (Get cache1 (cacheKey proxy0 request3) 1100) = (entry1, True)"
    by (simp only: f(7) [symmetric] f(8))
  from f(4,6) Get_found_iff [where c = New_Cache and key = "''GET /test?''" and now = 1102
      and dur = 100 and v = entry0 and t = 1000 and r = request3 and status = 200 and p = proxy0
      and clk = clock1 and F = stamp and w = NewWriter and header = ?hdr and body = "''success''"]
  have d0: "\<not> snd (fst (Get (snd (ServeHTTP stamp proxy0 New_Cache NewWriter request3 clock1
      (Replied 200 ?hdr ''success''))) (cacheKey proxy0 request3) 1102))"
    by blast
  have d: "\<not> snd (fst (Get cache1 (cacheKey proxy0 request3) 1102))"
    unfolding f(7) by (rule d0)
  from f(1-6) a b c d show ?thesis by blast
qed

text \<open>
  C4 as stated fails twice. At the expiry instant: with \<open>ExpireAt = 1100\<close> and a lookup
  at \<open>now = 1100\<close> the entry is found although \<open>now < ExpireAt\<close> is false. And after
  \<open>SavedAt + TTL\<close>: the entry a handler run stores with TTL 100, saved at 1000 with the
  expiry computed from the next clock reading 1001, is still found at 1101.
\<close>

theorem Get_at_expiry_counterexample:
  "Mapping.lookup (data (Set New_Cache ''GET /test?'' entry0)) ''GET /test?'' = Some entry0
   \<and> snd (fst (Get (Set New_Cache ''GET /test?'' entry0) ''GET /test?'' 1100))
   \<and> \<not> (IsZero (ExpireAt entry0) \<or> 1100 < ExpireAt entry0)
   \<and> cache1 = snd (ServeHTTP stamp proxy0 New_Cache NewWriter request3 clock1 upstream_ok)
   \<and> fst (Get cache1 (cacheKey proxy0 request3) 1101) = (entry1, True)
   \<and> SavedAt entry1 + sint (ttl proxy0) < 1101"
  by code_simp

end
